theory Spec2Isabelle
  imports Main
begin

section \<open>GitHub Issue Analyzer: backend/main.py and backend/models.py\<close>

text \<open>
  A shallow embedding of the two Python modules of the service. Python \<open>str\<close> values
  are HOL strings; a \<open>char\<close> stands for one code point in the range 0..255, so
  \<open>length\<close> counts code points as Python's \<open>len\<close> does. Exceptions are values of
  the type \<open>exn\<close>; a function that may raise returns \<open>exn + 'a\<close>, with \<open>Inl\<close>
  the raised exception. Logging has no effect on any result and is left out.
\<close>

subsection \<open>Python string primitives\<close>

text \<open>
  \<open>str.isspace\<close> on one code point below 256: TAB..CR (9..13), FS..US (28..31),
  SPACE (32), NEL (133) and NBSP (160). The regular expression class \<open>\s\<close> on
  \<open>str\<close> patterns tests the same property.
\<close>

definition py_isspace :: "char \<Rightarrow> bool" where
  "py_isspace c =
     (let n = (of_char c :: nat)
      in (9 \<le> n \<and> n \<le> 13) \<or> (28 \<le> n \<and> n \<le> 32) \<or> n = 133 \<or> n = 160)"

text \<open>\<open>s.strip()\<close>, \<open>s.rstrip('/')\<close>, \<open>s.lower()\<close>.\<close>

definition rstrip :: "(char \<Rightarrow> bool) \<Rightarrow> string \<Rightarrow> string" where
  "rstrip p s = rev (dropWhile p (rev s))"

definition strip :: "string \<Rightarrow> string" where
  "strip s = dropWhile py_isspace (rstrip py_isspace s)"

definition lower_char :: "char \<Rightarrow> char" where
  "lower_char c =
     (let n = (of_char c :: nat)
      in if (65 \<le> n \<and> n \<le> 90) \<or> (192 \<le> n \<and> n \<le> 214) \<or> (216 \<le> n \<and> n \<le> 222)
         then char_of (n + 32) else c)"

definition lower :: "string \<Rightarrow> string" where
  "lower s = map lower_char s"

text \<open>\<open>s.startswith(p)\<close>, \<open>s.endswith(p)\<close> and the substring test \<open>w in s\<close>.\<close>

definition startswith :: "string \<Rightarrow> string \<Rightarrow> bool" where
  "startswith s p = (take (length p) s = p)"

definition endswith :: "string \<Rightarrow> string \<Rightarrow> bool" where
  "endswith s p = (length p \<le> length s \<and> drop (length s - length p) s = p)"

fun py_in :: "string \<Rightarrow> string \<Rightarrow> bool" where
  "py_in w [] = (w = [])"
| "py_in w (c # cs) = (startswith (c # cs) w \<or> py_in w cs)"

text \<open>\<open>sep.join(xs)\<close>.\<close>

fun join :: "string \<Rightarrow> string list \<Rightarrow> string" where
  "join sep [] = []"
| "join sep [x] = x"
| "join sep (x # y # ys) = x @ sep @ join sep (y # ys)"

subsection \<open>Exceptions\<close>

text \<open>
  The exception classes the code raises or catches. \<open>ValidationError\<close> is pydantic's;
  it is a subclass of \<open>ValueError\<close>. \<open>Timeout\<close> and \<open>ConnectionError\<close> are
  subclasses of \<open>requests.RequestException\<close>. \<open>OtherException\<close> stands for any
  other subclass of \<open>Exception\<close>.
\<close>

datatype exn =
    ValueError
  | ValidationError
  | RequestException
  | Timeout
  | ConnectionError
  | TypeError
  | AttributeError
  | OtherException

fun is_ValueError :: "exn \<Rightarrow> bool" where
  "is_ValueError ValueError = True"
| "is_ValueError ValidationError = True"
| "is_ValueError _ = False"

fun is_RequestException :: "exn \<Rightarrow> bool" where
  "is_RequestException RequestException = True"
| "is_RequestException Timeout = True"
| "is_RequestException ConnectionError = True"
| "is_RequestException _ = False"

subsection \<open>parse_github_url (main.py)\<close>

text \<open>
  The four patterns share the tail \<open>([^/]+)/([^/]+)/?$\<close> and differ in the literal
  prefix that \<open>re.match\<close> requires at the start of the string. \<open>match_tail\<close> is
  that tail: the first group is the longest run of non-slash characters (a shorter run
  would be followed by a non-slash, not by the \<open>/\<close> the pattern needs), the second
  group likewise, then an optional slash, then \<open>$\<close>, which holds at the end of the
  string and just before a newline that ends the string. Both groups must be non-empty.
\<close>

definition not_slash :: "char \<Rightarrow> bool" where
  "not_slash c = (c \<noteq> CHR ''/'')"

definition match_tail :: "string \<Rightarrow> (string \<times> string) option" where
  "match_tail s =
     (let owner = takeWhile not_slash s; r1 = dropWhile not_slash s
      in if owner = [] then None
         else case r1 of
           [] \<Rightarrow> None
         | _ # r2 \<Rightarrow>
             (let repo = takeWhile not_slash r2; r3 = dropWhile not_slash r2
              in if repo = [] then None
                 else if r3 = [] \<or> r3 = ''/'' \<or> r3 = [CHR ''/'', CHR 0x0A]
                 then Some (owner, repo) else None))"

definition re_match :: "string \<Rightarrow> string \<Rightarrow> (string \<times> string) option" where
  "re_match prefix s =
     (if startswith s prefix then match_tail (drop (length prefix) s) else None)"

definition patterns :: "string list" where
  "patterns = [''https://github.com/'', ''http://github.com/'', ''github.com/'', '''']"

fun first_match :: "string list \<Rightarrow> string \<Rightarrow> (string \<times> string) option" where
  "first_match [] s = None"
| "first_match (p # ps) s =
     (case re_match p s of
        Some (owner, repo) \<Rightarrow>
          Some (owner, if endswith repo ''.git'' then take (length repo - 4) repo else repo)
      | None \<Rightarrow> first_match ps s)"

definition parse_github_url :: "string \<Rightarrow> exn + (string \<times> string)" where
  "parse_github_url repo_url =
     (if repo_url = [] then Inl ValueError
      else case first_match patterns (rstrip (\<lambda>c. c = CHR ''/'') (strip repo_url)) of
             Some r \<Rightarrow> Inr r
           | None \<Rightarrow> Inl ValueError)"

subsection \<open>JSON values and keyword dictionaries\<close>

text \<open>
  What \<open>json.loads\<close> returns, and what \<open>create_fallback_analysis\<close> builds: a
  dict is an association list, read with \<open>map_of\<close>. Numbers are carried as
  integers; no decision of the code depends on the value of a number.
\<close>

datatype json =
    JNull
  | JBool bool
  | JNumber int
  | JString string
  | JArray "json list"
  | JObject "(string \<times> json) list"

type_synonym kwargs = "(string \<times> json) list"

subsection \<open>IssueAnalysis (models.py)\<close>

record issue_analysis =
  summary :: string
  type :: string
  priority_score :: string
  suggested_labels :: "string list"
  potential_impact :: string

text \<open>
  The character class \<open>[a-zA-Z0-9\-_\s]\<close>, and \<open>re.match(r'^[a-zA-Z0-9\-_\s]+$', s)\<close>.
  The \<open>$\<close> also holds before a final newline, but a newline is itself in the class,
  so the match succeeds exactly when \<open>s\<close> is non-empty and every character is in the
  class.
\<close>

definition label_char :: "char \<Rightarrow> bool" where
  "label_char c =
     (let n = (of_char c :: nat)
      in (97 \<le> n \<and> n \<le> 122) \<or> (65 \<le> n \<and> n \<le> 90) \<or> (48 \<le> n \<and> n \<le> 57) \<or>
         c = CHR ''-'' \<or> c = CHR ''_'' \<or> py_isspace c)"

definition label_format :: "string \<Rightarrow> bool" where
  "label_format s = (if s = [] then False else list_all label_char s)"

text \<open>
  The loop of \<open>validate_labels\<close>. Every entry is a \<open>str\<close> here (the field type
  \<open>List[str]\<close> is checked before the validator runs), so \<open>isinstance(label, str)\<close>
  holds.
\<close>

fun clean_labels :: "string list \<Rightarrow> string list" where
  "clean_labels [] = []"
| "clean_labels (label # v) =
     (if strip label = [] then clean_labels v
      else (let cleaned_label = lower (strip label)
            in if label_format cleaned_label then cleaned_label # clean_labels v
               else clean_labels v))"

definition validate_labels :: "string list \<Rightarrow> exn + string list" where
  "validate_labels v =
     (if v = [] then Inl ValueError
      else (let cleaned_labels = clean_labels v
            in if cleaned_labels = [] then Inl ValueError
               else Inr (take 5 cleaned_labels)))"

definition validate_summary :: "string \<Rightarrow> exn + string" where
  "validate_summary v = (if v = [] \<or> strip v = [] then Inl ValueError else Inr (strip v))"

definition validate_potential_impact :: "string \<Rightarrow> exn + string" where
  "validate_potential_impact v =
     (if v = [] \<or> strip v = [] then Inl ValueError else Inr (strip v))"

text \<open>
  The field declarations, as pydantic checks them. A field is required; its value must
  have the declared type (\<open>str\<close>, \<open>List[str]\<close>: JSON numbers, booleans and null are
  not strings); the constraints of \<open>Field\<close> (\<open>max_length\<close>, \<open>pattern\<close>,
  \<open>min_items\<close>, \<open>max_items\<close>) are checked on the value as given; the
  \<open>@validator\<close> of the field runs after them, on a value that passed. Any failure,
  also a \<open>ValueError\<close> raised by a validator, makes the constructor raise
  \<open>ValidationError\<close>. Keys that name no field are ignored.
\<close>

definition and_then :: "exn + 'a \<Rightarrow> ('a \<Rightarrow> exn + 'b) \<Rightarrow> exn + 'b" where
  "and_then m f = (case m of Inl e \<Rightarrow> Inl e | Inr x \<Rightarrow> f x)"

definition str_field :: "json option \<Rightarrow> exn + string" where
  "str_field v = (case v of Some (JString s) \<Rightarrow> Inr s | _ \<Rightarrow> Inl ValidationError)"

fun str_items :: "json list \<Rightarrow> exn + string list" where
  "str_items [] = Inr []"
| "str_items (JString s # js) = and_then (str_items js) (\<lambda>ss. Inr (s # ss))"
| "str_items (_ # js) = Inl ValidationError"

definition list_str_field :: "json option \<Rightarrow> exn + string list" where
  "list_str_field v = (case v of Some (JArray js) \<Rightarrow> str_items js | _ \<Rightarrow> Inl ValidationError)"

definition max_length :: "nat \<Rightarrow> string \<Rightarrow> exn + string" where
  "max_length n s = (if length s \<le> n then Inr s else Inl ValidationError)"

definition type_pattern :: "string \<Rightarrow> exn + string" where
  "type_pattern s =
     (if List.member [''bug'', ''feature_request'', ''documentation'', ''question'', ''other''] s
      then Inr s else Inl ValidationError)"

definition items_between :: "nat \<Rightarrow> nat \<Rightarrow> string list \<Rightarrow> exn + string list" where
  "items_between lo hi v =
     (if lo \<le> length v \<and> length v \<le> hi then Inr v else Inl ValidationError)"

definition validated :: "exn + 'a \<Rightarrow> exn + 'a" where
  "validated m = (case m of Inl e \<Rightarrow> Inl ValidationError | Inr x \<Rightarrow> Inr x)"

definition summary_field :: "kwargs \<Rightarrow> exn + string" where
  "summary_field kw =
     validated (and_then (and_then (str_field (map_of kw ''summary'')) (max_length 200))
       validate_summary)"

definition type_field :: "kwargs \<Rightarrow> exn + string" where
  "type_field kw = and_then (str_field (map_of kw ''type'')) type_pattern"

definition priority_score_field :: "kwargs \<Rightarrow> exn + string" where
  "priority_score_field kw = and_then (str_field (map_of kw ''priority_score'')) (max_length 100)"

definition suggested_labels_field :: "kwargs \<Rightarrow> exn + string list" where
  "suggested_labels_field kw =
     validated (and_then (and_then (list_str_field (map_of kw ''suggested_labels''))
       (items_between 1 5)) validate_labels)"

definition potential_impact_field :: "kwargs \<Rightarrow> exn + string" where
  "potential_impact_field kw =
     validated (and_then (and_then (str_field (map_of kw ''potential_impact'')) (max_length 200))
       validate_potential_impact)"

definition IssueAnalysis :: "kwargs \<Rightarrow> exn + issue_analysis" where
  "IssueAnalysis kw =
     and_then (summary_field kw) (\<lambda>s.
     and_then (type_field kw) (\<lambda>t.
     and_then (priority_score_field kw) (\<lambda>p.
     and_then (suggested_labels_field kw) (\<lambda>l.
     and_then (potential_impact_field kw) (\<lambda>i.
       Inr \<lparr>summary = s, type = t, priority_score = p,
            suggested_labels = l, potential_impact = i\<rparr>)))))"

text \<open>
  \<open>IssueAnalysis(**analysis_data)\<close>: unpacking with \<open>**\<close> needs a mapping, and
  raises \<open>TypeError\<close> on any other value.
\<close>

definition construct :: "json \<Rightarrow> exn + issue_analysis" where
  "construct analysis_data =
     (case analysis_data of JObject kw \<Rightarrow> IssueAnalysis kw | _ \<Rightarrow> Inl TypeError)"

subsection \<open>create_fallback_analysis (main.py)\<close>

definition create_fallback_analysis :: "string \<Rightarrow> string \<Rightarrow> string list \<Rightarrow> kwargs" where
  "create_fallback_analysis title body existing_labels =
     (let title_lower = lower title;
          body_lower = lower (if body = [] then [] else body);
          issue_type =
            (if list_ex (\<lambda>word. py_in word title_lower)
                  [''bug'', ''error'', ''issue'', ''broken'', ''not working'']
             then ''bug''
             else if list_ex (\<lambda>word. py_in word title_lower)
                  [''feature'', ''add'', ''support'', ''enhancement'']
             then ''feature_request''
             else if list_ex (\<lambda>word. py_in word title_lower)
                  [''doc'', ''documentation'', ''readme'']
             then ''documentation''
             else if list_ex (startswith title_lower) [''how'', ''why'', ''what'', ''?'']
             then ''question''
             else ''other'')
      in [(''summary'',
            JString (''Issue regarding: '' @ take 100 title @
                     (if length title > 100 then ''...'' else []))),
          (''type'', JString issue_type),
          (''priority_score'',
            JString ''3 - Unable to determine exact priority, defaulting to moderate''),
          (''suggested_labels'',
            JArray (map JString
              (if existing_labels = [] then [''needs-triage''] else take 3 existing_labels))),
          (''potential_impact'',
            JString ''Impact assessment requires manual review due to processing error'')])"

subsection \<open>The outside world\<close>

text \<open>
  The GitHub API, the language model and \<open>json.loads\<close> are parameters of the
  model. An HTTP call either raises or answers with a status code and a decoded body;
  the body of an issue answer is read only when the status is 200. The prompt is a fixed
  template around five values, and the model's answer is a function of these values:
  the call raises, returns no response object, or returns a response with a text.
  \<open>json.loads\<close> returns \<open>None\<close> when it raises \<open>JSONDecodeError\<close>.
\<close>

datatype 'a http = Raises exn | Response nat 'a

text \<open>
  An issue as the code reads it: the keys \<open>title\<close>, \<open>body\<close> (null or absent is
  \<open>None\<close>), \<open>state\<close>, \<open>labels\<close> (each label is its \<open>name\<close> entry, \<open>None\<close> when
  the label has none), \<open>comments\<close> and \<open>comments_url\<close>.
\<close>

type_synonym label = "string option"

record raw_issue =
  i_title :: string
  i_body :: "string option"
  i_state :: string
  i_labels :: "label list"
  i_comments :: int
  i_comments_url :: string

text \<open>
  A comment as the code reads it: the key \<open>user\<close> is absent, null, or a dict whose
  \<open>login\<close> entry is given or not; the key \<open>body\<close> is absent, null or a string.
\<close>

datatype 'a entry = Absent | Null | Present 'a

record comment =
  c_user :: "string option entry"
  c_body :: "string entry"

datatype llm_reply = LLMRaises | LLMNone | LLMText string

type_synonym prompt = "string \<times> string \<times> string \<times> string list \<times> string"

record env =
  issue_api :: "string \<Rightarrow> string \<Rightarrow> int \<Rightarrow> raw_issue http"
  comments_api :: "string \<Rightarrow> comment list option http"
  generate_content :: "prompt \<Rightarrow> llm_reply"
  json_loads :: "string \<Rightarrow> json option"

datatype call =
    IssueFetch string string int
  | CommentsFetch string
  | LLMCall prompt

subsection \<open>analyze_with_llm (main.py)\<close>

text \<open>
  \<open>re.search(r'\{.*\}', response_text, re.DOTALL)\<close>: the match starts at the first
  \<open>{\<close> (no brace before it can start one, and if no \<open>}\<close> follows the first
  \<open>{\<close>, none follows a later one) and the greedy \<open>.*\<close> runs to the last \<open>}\<close>.
\<close>

definition is_open :: "char \<Rightarrow> bool" where
  "is_open c = (c = CHR 0x7B)"

definition is_close :: "char \<Rightarrow> bool" where
  "is_close c = (c = CHR 0x7D)"

definition json_match :: "string \<Rightarrow> string option" where
  "json_match response_text =
     (case dropWhile (\<lambda>c. \<not> is_open c) response_text of
        [] \<Rightarrow> None
      | b # rest \<Rightarrow>
          if list_ex is_close rest
          then Some (b # rstrip (\<lambda>c. \<not> is_close c) rest)
          else None)"

text \<open>Lines 271 to 276: the text that is handed to \<open>json.loads\<close>.\<close>

definition candidate :: "string \<Rightarrow> string" where
  "candidate text =
     (let response_text = strip text
      in case json_match response_text of
           Some span \<Rightarrow> span
         | None \<Rightarrow> response_text)"

definition existing_labels_of :: "label list \<Rightarrow> string list" where
  "existing_labels_of labels =
     (if labels = [] then []
      else map (\<lambda>label. case label of Some name \<Rightarrow> name | None \<Rightarrow> []) labels)"

definition build_prompt :: "string \<Rightarrow> string \<Rightarrow> string \<Rightarrow> string list \<Rightarrow> string \<Rightarrow> prompt" where
  "build_prompt title body state existing_labels comments =
     (title, (if body = [] then ''No description provided'' else body), state,
      existing_labels, (if comments = [] then ''No comments'' else comments))"

text \<open>
  The body of the \<open>try\<close> block. Every exception it raises is a subclass of
  \<open>Exception\<close>, so the handler replaces it by the fallback; the fallback's own
  constructor call stands outside every \<open>try\<close>.
\<close>

definition try_llm :: "env \<Rightarrow> prompt \<Rightarrow> string \<Rightarrow> string \<Rightarrow> string list \<Rightarrow> exn + issue_analysis" where
  "try_llm e prompt title body existing_labels =
     (case generate_content e prompt of
        LLMRaises \<Rightarrow> Inl OtherException
      | LLMNone \<Rightarrow> Inl ValueError
      | LLMText text \<Rightarrow>
          if text = [] then Inl ValueError
          else (let response_text = candidate text;
                    analysis_data =
                      (case json_loads e response_text of
                         Some j \<Rightarrow> j
                       | None \<Rightarrow> JObject (create_fallback_analysis title body existing_labels))
                in construct analysis_data))"

definition analyze_with_llm ::
  "env \<Rightarrow> string \<Rightarrow> string \<Rightarrow> string \<Rightarrow> label list \<Rightarrow> string \<Rightarrow> (exn + issue_analysis) \<times> call list" where
  "analyze_with_llm e title body comments labels state =
     (let existing_labels = existing_labels_of labels;
          prompt = build_prompt title body state existing_labels comments
      in (case try_llm e prompt title body existing_labels of
            Inr a \<Rightarrow> Inr a
          | Inl ex \<Rightarrow> IssueAnalysis (create_fallback_analysis title body existing_labels),
          [LLMCall prompt]))"

subsection \<open>get_issue_data and get_issue_comments (main.py)\<close>

definition get_issue_data :: "env \<Rightarrow> string \<Rightarrow> string \<Rightarrow> int \<Rightarrow> (exn + raw_issue) \<times> call list" where
  "get_issue_data e owner repo issue_number =
     (if issue_number \<le> 0 then (Inl ValueError, [])
      else
        ((case issue_api e owner repo issue_number of
            Response status issue_data \<Rightarrow>
              if status = 404 then Inl ValueError
              else if status = 403 then Inl ValueError
              else if status = 200 then Inr issue_data
              else Inl RequestException
          | Raises ex \<Rightarrow>
              if ex = Timeout then Inl RequestException
              else if ex = ConnectionError then Inl RequestException
              else Inl ex),
         [IssueFetch owner repo issue_number]))"

text \<open>
  One round of the loop over the comments: \<open>None\<close> when the comment is skipped. A null
  \<open>user\<close> or a null \<open>body\<close> raises \<open>AttributeError\<close> (\<open>None\<close> has neither
  \<open>get\<close> nor \<open>strip\<close>).
\<close>

definition format_comment :: "comment \<Rightarrow> exn + string option" where
  "format_comment c =
     (case c_user c of
        Null \<Rightarrow> Inl AttributeError
      | u \<Rightarrow>
          (let author = (case u of Present (Some login) \<Rightarrow> login | _ \<Rightarrow> ''unknown'')
           in case c_body c of
                Null \<Rightarrow> Inl AttributeError
              | b \<Rightarrow>
                  (let body = strip (case b of Present t \<Rightarrow> t | _ \<Rightarrow> [])
                   in if body = [] then Inr None
                      else Inr (Some (''Comment by '' @ author @ [CHR '':'', CHR 0x0A] @ body)))))"

fun formatted_comments :: "comment list \<Rightarrow> exn + string list" where
  "formatted_comments [] = Inr []"
| "formatted_comments (c # cs) =
     and_then (format_comment c) (\<lambda>r.
     and_then (formatted_comments cs) (\<lambda>rs.
       Inr (case r of Some t \<Rightarrow> t # rs | None \<Rightarrow> rs)))"

definition separator :: string where
  "separator = CHR 0x0A # ''---COMMENT---'' @ [CHR 0x0A]"

definition get_issue_comments :: "env \<Rightarrow> string \<Rightarrow> string \<times> call list" where
  "get_issue_comments e comments_url =
     (if comments_url = [] then ([], [])
      else
        ((case comments_api e comments_url of
            Raises ex \<Rightarrow> []
          | Response status body \<Rightarrow>
              if status = 200 then
                (case body of
                   None \<Rightarrow> []
                 | Some comments_data \<Rightarrow>
                     if comments_data = [] then []
                     else (case formatted_comments comments_data of
                             Inl ex \<Rightarrow> []
                           | Inr formatted \<Rightarrow> join separator formatted))
              else []),
         [CommentsFetch comments_url]))"

subsection \<open>IssueRequest (models.py) and the endpoint POST /analyze (main.py)\<close>

record issue_request =
  repo_url :: string
  issue_number :: int

text \<open>
  The patterns of \<open>validate_repo_url\<close> are those of \<open>parse_github_url\<close> without the
  groups, so they match the same strings.
\<close>

definition validate_repo_url :: "string \<Rightarrow> exn + string" where
  "validate_repo_url v =
     (if v = [] \<or> strip v = [] then Inl ValueError
      else if list_ex (\<lambda>pattern. re_match pattern (strip v) \<noteq> None) patterns
      then Inr (strip v) else Inl ValueError)"

definition IssueRequest :: "string \<Rightarrow> int \<Rightarrow> exn + issue_request" where
  "IssueRequest url n =
     and_then (validated (validate_repo_url url)) (\<lambda>u.
       if 1 \<le> n then Inr \<lparr>repo_url = u, issue_number = n\<rparr> else Inl ValidationError)"

datatype http_response = OK issue_analysis | HTTPException nat

text \<open>The three \<open>except\<close> clauses of \<open>analyze_issue\<close>, in their order.\<close>

definition http_error :: "exn \<Rightarrow> http_response" where
  "http_error ex =
     (if is_ValueError ex then HTTPException 400
      else if is_RequestException ex then HTTPException 502
      else HTTPException 500)"

definition analyze_issue :: "env \<Rightarrow> issue_request \<Rightarrow> http_response \<times> call list" where
  "analyze_issue e data =
     (case parse_github_url (repo_url data) of
        Inl ex \<Rightarrow> (http_error ex, [])
      | Inr (owner, repo) \<Rightarrow>
          (case get_issue_data e owner repo (issue_number data) of
             (Inl ex, calls1) \<Rightarrow> (http_error ex, calls1)
           | (Inr issue_data, calls1) \<Rightarrow>
               (let (comments, calls2) =
                      (if i_comments issue_data > 0
                       then get_issue_comments e (i_comments_url issue_data)
                       else ([], []));
                    (analysis_result, calls3) =
                      analyze_with_llm e (i_title issue_data)
                        (case i_body issue_data of Some b \<Rightarrow> b | None \<Rightarrow> [])
                        comments (i_labels issue_data) (i_state issue_data)
                in (case analysis_result of
                      Inr a \<Rightarrow> OK a
                    | Inl ex \<Rightarrow> http_error ex,
                    calls1 @ calls2 @ calls3))))"

text \<open>
  The route takes \<open>data: IssueRequest\<close>: FastAPI builds the request model before it
  calls the handler, and answers 422 itself when the model rejects the body (main.py
  registers no exception handler of its own).
\<close>

definition post_analyze :: "env \<Rightarrow> string \<Rightarrow> int \<Rightarrow> http_response \<times> call list" where
  "post_analyze e url n =
     (case IssueRequest url n of
        Inl ex \<Rightarrow> (HTTPException 422, [])
      | Inr data \<Rightarrow> analyze_issue e data)"

section \<open>The specification's wording\<close>

text \<open>
  Definitions that follow the words of the specification, to be compared with the
  definitions above, which follow the code.
\<close>

subsection \<open>The rules of the heuristic classifier\<close>

text \<open>
  An ordered list of keyword rules on the lowercased title, the first matching rule
  deciding, followed by the question prefixes and the default; and the title cut to a
  length, with an ellipsis when something was cut.
\<close>

definition keyword_rules :: "(string list \<times> string) list" where
  "keyword_rules =
     [([''bug'', ''error'', ''issue'', ''broken'', ''not working''], ''bug''),
      ([''feature'', ''add'', ''support'', ''enhancement''], ''feature_request''),
      ([''doc'', ''documentation'', ''readme''], ''documentation'')]"

fun first_rule :: "(string list \<times> string) list \<Rightarrow> string \<Rightarrow> string option" where
  "first_rule [] t = None"
| "first_rule ((ws, ty) # rules) t =
     (if list_ex (\<lambda>w. py_in w t) ws then Some ty else first_rule rules t)"

definition classify_type :: "string \<Rightarrow> string" where
  "classify_type title =
     (case first_rule keyword_rules (lower title) of
        Some ty \<Rightarrow> ty
      | None \<Rightarrow>
          if list_ex (startswith (lower title)) [''how'', ''why'', ''what'', ''?'']
          then ''question'' else ''other'')"

definition truncated :: "nat \<Rightarrow> string \<Rightarrow> string" where
  "truncated n s = (if length s \<le> n then s else take n s @ ''...'')"

subsection \<open>The labels that survive cleaning\<close>

text \<open>
  Each entry trimmed and lowercased; those kept that are non-empty and consist of
  characters of the label class.
\<close>

definition surviving_labels :: "string list \<Rightarrow> string list" where
  "surviving_labels v =
     filter (\<lambda>l. l \<noteq> [] \<and> list_all label_char l) (map (\<lambda>l. lower (strip l)) v)"

subsection \<open>Rendered comments\<close>

text \<open>
  The author of a comment (\<open>unknown\<close> when it names none), its trimmed body, and its
  rendering. \<open>has_null\<close> holds of a comment whose \<open>user\<close> or \<open>body\<close> is null.
\<close>

definition comment_author :: "comment \<Rightarrow> string" where
  "comment_author c = (case c_user c of Present (Some login) \<Rightarrow> login | _ \<Rightarrow> ''unknown'')"

definition comment_text :: "comment \<Rightarrow> string" where
  "comment_text c = strip (case c_body c of Present t \<Rightarrow> t | _ \<Rightarrow> [])"

definition rendered :: "comment \<Rightarrow> string" where
  "rendered c = ''Comment by '' @ comment_author c @ [CHR '':'', CHR 0x0A] @ comment_text c"

definition has_null :: "comment \<Rightarrow> bool" where
  "has_null c = (c_user c = Null \<or> c_body c = Null)"

subsection \<open>URL forms\<close>

text \<open>
  The URL forms the specification accepts for one owner and repository: a prefix, the
  two names, an optional \<open>.git\<close> suffix and an optional trailing slash.
\<close>

definition url_form :: "string \<Rightarrow> string \<Rightarrow> string \<Rightarrow> bool \<Rightarrow> bool \<Rightarrow> string" where
  "url_form scheme owner repo git slash =
     scheme @ owner @ ''/'' @ repo @ (if git then ''.git'' else []) @ (if slash then ''/'' else [])"

section \<open>Sample inputs\<close>

text \<open>
  Concrete issues, comments, replies and environments on which the properties below are
  run. \<open>example_span\<close> is the object of the specification's example reply, and
  \<open>example_env\<close> has a \<open>json.loads\<close> that decodes this one text.
\<close>

definition sample_issue :: raw_issue where
  "sample_issue =
     \<lparr>i_title = ''Crash on start'', i_body = None, i_state = ''open'',
      i_labels = [Some ''type: bug''], i_comments = 0, i_comments_url = []\<rparr>"

definition test_env :: "nat \<Rightarrow> llm_reply \<Rightarrow> env" where
  "test_env status reply =
     \<lparr>issue_api = (\<lambda>owner repo n. Response status sample_issue),
      comments_api = (\<lambda>url. Response 200 (Some [])),
      generate_content = (\<lambda>p. reply),
      json_loads = (\<lambda>s. None)\<rparr>"

definition candidate_with_labels :: "string list \<Rightarrow> kwargs" where
  "candidate_with_labels v =
     [(''summary'', JString ''x''), (''type'', JString ''bug''),
      (''priority_score'', JString ''1''),
      (''suggested_labels'', JArray (map JString v)),
      (''potential_impact'', JString ''y'')]"

definition comments_env :: "comment list option http \<Rightarrow> env" where
  "comments_env answer =
     \<lparr>issue_api = (\<lambda>owner repo n. Response 200 sample_issue),
      comments_api = (\<lambda>url. answer),
      generate_content = (\<lambda>p. LLMRaises),
      json_loads = (\<lambda>s. None)\<rparr>"

definition sample_comments :: "comment list" where
  "sample_comments =
     [\<lparr>c_user = Present (Some ''alice''), c_body = Present '' I see this too ''\<rparr>,
      \<lparr>c_user = Present (Some ''bob''), c_body = Present ''   ''\<rparr>,
      \<lparr>c_user = Absent, c_body = Present ''Fixed in 2.0''\<rparr>]"

definition example_span :: string where
  \<open>example_span = ''{"summary":"x","type":"bug","priority_score":"1","suggested_labels":["bug"],"potential_impact":"y"}''\<close>

definition example_object :: kwargs where
  "example_object =
     [(''summary'', JString ''x''), (''type'', JString ''bug''),
      (''priority_score'', JString ''1''),
      (''suggested_labels'', JArray [JString ''bug'']),
      (''potential_impact'', JString ''y'')]"

definition example_env :: "string \<Rightarrow> env" where
  "example_env reply =
     \<lparr>issue_api = (\<lambda>owner repo n. Response 200 sample_issue),
      comments_api = (\<lambda>url. Response 200 (Some [])),
      generate_content = (\<lambda>p. LLMText reply),
      json_loads = (\<lambda>s. if s = example_span then Some (JObject example_object) else None)\<rparr>"

section \<open>Properties\<close>

subsection \<open>Strings\<close>

text \<open>The substring test finds exactly the strings that contain the word.\<close>

lemma py_in_iff: "py_in w s \<longleftrightarrow> (\<exists>pre post. s = pre @ w @ post)"
proof (induction s)
  case Nil
  then show ?case by auto
next
  case (Cons c cs)
  show ?case
  proof
    assume "py_in w (c # cs)"
    then consider "startswith (c # cs) w" | "py_in w cs" by auto
    then show "\<exists>pre post. c # cs = pre @ w @ post"
    proof cases
      case 1
      then have "c # cs = [] @ w @ drop (length w) (c # cs)"
        unfolding startswith_def by (metis append_Nil append_take_drop_id)
      then show ?thesis by blast
    next
      case 2
      then obtain pre post where "cs = pre @ w @ post" using Cons.IH by blast
      then have "c # cs = (c # pre) @ w @ post" by simp
      then show ?thesis by blast
    qed
  next
    assume "\<exists>pre post. c # cs = pre @ w @ post"
    then obtain pre post where eq: "c # cs = pre @ w @ post" by blast
    show "py_in w (c # cs)"
    proof (cases pre)
      case Nil
      then have "startswith (c # cs) w" using eq by (simp add: startswith_def)
      then show ?thesis by simp
    next
      case (Cons d pre')
      then have "cs = pre' @ w @ post" using eq by simp
      then show ?thesis using Cons.IH by auto
    qed
  qed
qed

subsection \<open>The fallback analysis\<close>

text \<open>
  C10: the fallback analysis does not depend on the issue body. For every title, every
  list of existing labels and any two bodies, \<open>create_fallback_analysis\<close> returns the
  same dictionary: the lowercased body is computed and never read.
\<close>

theorem fallback_ignores_body:
  "create_fallback_analysis title b1 existing_labels =
   create_fallback_analysis title b2 existing_labels"
  by (simp add: create_fallback_analysis_def Let_def)

lemma first_rule_keyword_rules:
  "first_rule keyword_rules t =
     (if list_ex (\<lambda>word. py_in word t) [''bug'', ''error'', ''issue'', ''broken'', ''not working'']
      then Some ''bug''
      else if list_ex (\<lambda>word. py_in word t) [''feature'', ''add'', ''support'', ''enhancement'']
      then Some ''feature_request''
      else if list_ex (\<lambda>word. py_in word t) [''doc'', ''documentation'', ''readme'']
      then Some ''documentation''
      else None)"
  unfolding keyword_rules_def by simp

text \<open>
  C8: the heuristic classifier. The \<open>type\<close> entry of the fallback dictionary is the
  type of the first keyword rule that the lowercased title matches (bug, then feature
  request, then documentation), else \<open>question\<close> when the lowercased title starts with a
  question prefix, else \<open>other\<close>. The summary is \<open>Issue regarding: \<close> followed by the
  title cut to 100 characters, with \<open>...\<close> appended exactly when the title is longer;
  the priority score and the potential impact are the two fixed strings; the suggested
  labels are the first three existing labels, or \<open>needs-triage\<close> when there is none.
  The dictionary has these five keys and no other. The three titles of the
  specification are classified as bug, feature request and question.
\<close>

theorem fallback_fields:
  "map_of (create_fallback_analysis title body existing_labels) ''type'' =
     Some (JString (classify_type title)) \<and>
   map_of (create_fallback_analysis title body existing_labels) ''summary'' =
     Some (JString (''Issue regarding: '' @ truncated 100 title)) \<and>
   map_of (create_fallback_analysis title body existing_labels) ''priority_score'' =
     Some (JString ''3 - Unable to determine exact priority, defaulting to moderate'') \<and>
   map_of (create_fallback_analysis title body existing_labels) ''suggested_labels'' =
     Some (JArray (map JString
       (if existing_labels = [] then [''needs-triage''] else take 3 existing_labels))) \<and>
   map_of (create_fallback_analysis title body existing_labels) ''potential_impact'' =
     Some (JString ''Impact assessment requires manual review due to processing error'') \<and>
   map fst (create_fallback_analysis title body existing_labels) =
     [''summary'', ''type'', ''priority_score'', ''suggested_labels'', ''potential_impact''] \<and>
   classify_type ''Bug: login broken'' = ''bug'' \<and>
   classify_type ''Add dark mode support'' = ''feature_request'' \<and>
   classify_type ''How do I configure X?'' = ''question''"
proof -
  let ?d = "create_fallback_analysis title body existing_labels"
  have ty: "map_of ?d ''type'' = Some (JString (classify_type title))"
    unfolding create_fallback_analysis_def classify_type_def first_rule_keyword_rules Let_def
    by simp
  have su: "map_of ?d ''summary'' = Some (JString (''Issue regarding: '' @ truncated 100 title))"
    unfolding create_fallback_analysis_def truncated_def Let_def by simp
  have pr: "map_of ?d ''priority_score'' =
      Some (JString ''3 - Unable to determine exact priority, defaulting to moderate'')"
    unfolding create_fallback_analysis_def Let_def by simp
  have la: "map_of ?d ''suggested_labels'' = Some (JArray (map JString
       (if existing_labels = [] then [''needs-triage''] else take 3 existing_labels)))"
    unfolding create_fallback_analysis_def Let_def by simp
  have im: "map_of ?d ''potential_impact'' =
      Some (JString ''Impact assessment requires manual review due to processing error'')"
    unfolding create_fallback_analysis_def Let_def by simp
  have ks: "map fst ?d =
     [''summary'', ''type'', ''priority_score'', ''suggested_labels'', ''potential_impact'']"
    unfolding create_fallback_analysis_def Let_def by simp
  have e1: "classify_type ''Bug: login broken'' = ''bug''" by code_simp
  have e2: "classify_type ''Add dark mode support'' = ''feature_request''" by code_simp
  have e3: "classify_type ''How do I configure X?'' = ''question''" by code_simp
  from ty su pr la im ks e1 e2 e3 show ?thesis by blast
qed

text \<open>
  C1: the analysis path is meant to return a valid analysis whatever the model answers.
  It does not when the fallback's own labels are rejected: with a failing model call and
  the single existing label \<open>type: bug\<close> (the colon is outside the label pattern), the
  fallback dictionary carries that label, \<open>validate_labels\<close> keeps no entry, and the
  constructor call in the exception handler raises \<open>ValidationError\<close> out of
  \<open>analyze_with_llm\<close>.
\<close>

theorem analyze_with_llm_fallback_raises:
  "fst (analyze_with_llm (test_env 200 LLMRaises) ''Crash on start'' [] []
          [Some ''type: bug''] ''open'') = Inl ValidationError"
  by code_simp

subsection \<open>The endpoint and the issue number\<close>

lemma parse_github_url_raises: "parse_github_url url = Inl ex \<Longrightarrow> ex = ValueError"
  by (auto simp: parse_github_url_def split: if_splits option.splits)

lemma get_issue_data_nonpositive:
  "n \<le> 0 \<Longrightarrow> get_issue_data e owner repo n = (Inl ValueError, [])"
  by (simp add: get_issue_data_def)

lemma analyze_issue_nonpositive:
  assumes "issue_number data \<le> 0"
  shows "analyze_issue e data = (HTTPException 400, [])"
proof (cases "parse_github_url (repo_url data)")
  case (Inl ex)
  then have "ex = ValueError" by (rule parse_github_url_raises)
  with Inl show ?thesis by (simp add: analyze_issue_def http_error_def)
next
  case (Inr r)
  obtain owner repo where r: "r = (owner, repo)" by (cases r)
  show ?thesis
    using Inr r assms
    by (simp add: analyze_issue_def get_issue_data_nonpositive http_error_def)
qed

lemma IssueRequest_nonpositive: "n \<le> 0 \<Longrightarrow> \<exists>ex. IssueRequest url n = Inl ex"
  by (cases "validate_repo_url url") (simp_all add: IssueRequest_def and_then_def validated_def)

lemma IssueRequest_Inr:
  "IssueRequest url n = Inr data \<Longrightarrow> 1 \<le> n \<and> issue_number data = n"
  by (auto simp: IssueRequest_def and_then_def split: sum.splits if_splits)

text \<open>
  C2, as stated, fails: a request with issue number 0 is answered 422, not 400. The
  request model (\<open>ge=1\<close>) rejects it before the handler runs.
\<close>

theorem issue_number_zero_is_422:
  "post_analyze (test_env 200 LLMRaises) ''https://github.com/facebook/react'' 0 =
     (HTTPException 422, []) \<and>
   fst (post_analyze (test_env 200 LLMRaises) ''https://github.com/facebook/react'' 0) \<noteq>
     HTTPException 400"
  by code_simp

text \<open>
  C2, amended: for every request to POST /analyze whose issue number is 0 or negative,
  no outbound call (issue fetch, comments fetch, model call) is made and the answer is
  422, from the request model. The handler has a guard of its own: called with such a
  number it answers 400, whatever the URL, again without any outbound call.
\<close>

theorem nonpositive_issue_number:
  assumes "n \<le> 0"
  shows "post_analyze e url n = (HTTPException 422, []) \<and>
         analyze_issue e \<lparr>repo_url = url, issue_number = n\<rparr> = (HTTPException 400, [])"
proof -
  obtain ex where "IssueRequest url n = Inl ex"
    using IssueRequest_nonpositive [OF assms] by blast
  then have "post_analyze e url n = (HTTPException 422, [])"
    by (simp add: post_analyze_def)
  moreover have "analyze_issue e \<lparr>repo_url = url, issue_number = n\<rparr> = (HTTPException 400, [])"
    using assms by (simp add: analyze_issue_nonpositive)
  ultimately show ?thesis by simp
qed

theorem nonpositive_issue_number_witness:
  "post_analyze (test_env 200 LLMRaises) ''facebook/react'' (- 3) = (HTTPException 422, []) \<and>
   analyze_issue (test_env 200 LLMRaises) \<lparr>repo_url = ''facebook/react'', issue_number = - 3\<rparr> =
     (HTTPException 400, [])"
  using nonpositive_issue_number [of "- 3" "test_env 200 LLMRaises" "''facebook/react''"] by simp

subsection \<open>The endpoint and the status of the issue fetch\<close>

text \<open>
  C3, as stated, fails: when GitHub answers the issue fetch with 403, the endpoint
  answers 400, not 502. \<open>get_issue_data\<close> raises \<open>ValueError\<close> for 403 as it does
  for 404, and the handler maps \<open>ValueError\<close> to 400.
\<close>

theorem rate_limited_is_not_502:
  "post_analyze (test_env 403 LLMRaises) ''https://github.com/facebook/react'' 1 =
     (HTTPException 400, [IssueFetch ''facebook'' ''react'' 1]) \<and>
   fst (post_analyze (test_env 403 LLMRaises) ''https://github.com/facebook/react'' 1) \<noteq>
     HTTPException 502"
  by code_simp

text \<open>
  C3, amended: for a request that the request model accepts and whose URL parses, when
  the issue fetch answers 403, \<open>get_issue_data\<close> raises \<open>ValueError\<close> and the
  endpoint answers 400; when it answers any status other than 200, 403 and 404,
  \<open>get_issue_data\<close> raises \<open>RequestException\<close> and the endpoint answers 502. In both
  cases the issue fetch is the only outbound call.
\<close>

theorem forbidden_is_400:
  assumes "IssueRequest url n = Inr data"
    and "parse_github_url (repo_url data) = Inr (owner, repo)"
    and "issue_api e owner repo n = Response status b"
  shows "(status = 403 \<longrightarrow>
            get_issue_data e owner repo n = (Inl ValueError, [IssueFetch owner repo n]) \<and>
            post_analyze e url n = (HTTPException 400, [IssueFetch owner repo n])) \<and>
         (status \<noteq> 200 \<and> status \<noteq> 403 \<and> status \<noteq> 404 \<longrightarrow>
            get_issue_data e owner repo n = (Inl RequestException, [IssueFetch owner repo n]) \<and>
            post_analyze e url n = (HTTPException 502, [IssueFetch owner repo n]))"
proof -
  have n: "1 \<le> n" "issue_number data = n" using IssueRequest_Inr [OF assms(1)] by simp_all
  have post: "post_analyze e url n = analyze_issue e data"
    using assms(1) by (simp add: post_analyze_def)
  show ?thesis
    using n assms(2,3) unfolding post
    by (simp add: analyze_issue_def get_issue_data_def http_error_def)
qed

theorem forbidden_is_400_witness:
  "get_issue_data (test_env 403 LLMRaises) ''facebook'' ''react'' 7 =
     (Inl ValueError, [IssueFetch ''facebook'' ''react'' 7]) \<and>
   post_analyze (test_env 403 LLMRaises) ''facebook/react'' 7 =
     (HTTPException 400, [IssueFetch ''facebook'' ''react'' 7]) \<and>
   post_analyze (test_env 500 LLMRaises) ''facebook/react'' 7 =
     (HTTPException 502, [IssueFetch ''facebook'' ''react'' 7])"
proof -
  have a: "IssueRequest ''facebook/react'' 7 = Inr \<lparr>repo_url = ''facebook/react'', issue_number = 7\<rparr>"
    by code_simp
  have b: "parse_github_url (repo_url \<lparr>repo_url = ''facebook/react'', issue_number = 7\<rparr>) =
      Inr (''facebook'', ''react'')"
    by code_simp
  have c: "issue_api (test_env 403 LLMRaises) ''facebook'' ''react'' 7 = Response 403 sample_issue"
    by (simp add: test_env_def)
  have d: "issue_api (test_env 500 LLMRaises) ''facebook'' ''react'' 7 = Response 500 sample_issue"
    by (simp add: test_env_def)
  show ?thesis
    using forbidden_is_400 [OF a b c] forbidden_is_400 [OF a b d] by simp
qed

subsection \<open>Malformed repository URLs\<close>

lemma match_tail_no_slash: "CHR ''/'' \<notin> set s \<Longrightarrow> match_tail s = None"
proof -
  assume "CHR ''/'' \<notin> set s"
  then have d: "dropWhile not_slash s = []"
    by (auto simp: not_slash_def)
  show ?thesis unfolding match_tail_def Let_def d by simp
qed

lemma re_match_no_slash: "CHR ''/'' \<notin> set s \<Longrightarrow> re_match p s = None"
proof -
  assume a: "CHR ''/'' \<notin> set s"
  have "CHR ''/'' \<notin> set (drop (length p) s)" using a by (meson in_set_dropD)
  then show ?thesis by (simp add: re_match_def match_tail_no_slash)
qed

lemma first_match_no_slash: "CHR ''/'' \<notin> set s \<Longrightarrow> first_match ps s = None"
  by (induction ps) (simp_all add: re_match_no_slash)

text \<open>
  C4, as stated, fails at \<open>github.com/onlyowner\<close>: the third pattern does not match (it
  needs a second slash), the fourth, bare \<open>OWNER/REPO\<close>, does, and the parser returns
  the owner \<open>github.com\<close> and the repository \<open>onlyowner\<close>.
\<close>

theorem parse_accepts_github_com_onlyowner:
  "parse_github_url ''github.com/onlyowner'' = Inr (''github.com'', ''onlyowner'') \<and>
   parse_github_url ''github.com/onlyowner'' \<noteq> Inl ValueError"
  by code_simp

subsection \<open>Validation of the suggested labels\<close>

lemma lower_Nil_iff: "lower s = [] \<longleftrightarrow> s = []"
  by (simp add: lower_def)

lemma clean_labels_surviving: "clean_labels v = surviving_labels v"
  by (induction v) (simp_all add: surviving_labels_def label_format_def lower_Nil_iff Let_def)

lemma str_items_strings: "str_items (map JString v) = Inr v"
  by (induction v) (simp_all add: and_then_def)

lemma length_surviving_labels: "length (surviving_labels v) \<le> length v"
  unfolding surviving_labels_def by (metis length_filter_le length_map)

text \<open>
  The label field in full. For every candidate whose \<open>suggested_labels\<close> is a list
  of strings, the field is rejected with \<open>ValidationError\<close> when the list is empty or
  has more than 5 entries (\<open>min_items\<close>, \<open>max_items\<close>, checked before the
  validator runs); otherwise each entry is trimmed and lowercased, the entries that are
  non-empty and match \<open>[a-zA-Z0-9\-_\s]+\<close> are kept, the field is rejected when none
  is kept, and the kept entries are the result. \<open>validate_labels\<close> by itself keeps
  the first 5 surviving entries of any list, but a list of more than 5 never reaches it.
\<close>

theorem labels_validation:
  assumes "map_of kw ''suggested_labels'' = Some (JArray (map JString v))"
  shows "suggested_labels_field kw =
           (if v = [] \<or> 5 < length v \<or> surviving_labels v = [] then Inl ValidationError
            else Inr (surviving_labels v)) \<and>
         length (surviving_labels v) \<le> length v \<and>
         validate_labels v =
           (if surviving_labels v = [] then Inl ValueError
            else Inr (take 5 (surviving_labels v)))"
proof -
  have len: "length (surviving_labels v) \<le> length v" by (rule length_surviving_labels)
  have val: "validate_labels v =
      (if surviving_labels v = [] then Inl ValueError else Inr (take 5 (surviving_labels v)))"
    by (cases v) (simp_all add: validate_labels_def clean_labels_surviving Let_def surviving_labels_def)
  have "suggested_labels_field kw =
      (if v = [] \<or> 5 < length v \<or> surviving_labels v = [] then Inl ValidationError
       else Inr (surviving_labels v))"
  proof (cases "v = [] \<or> 5 < length v")
    case True
    then have "items_between 1 5 v = Inl ValidationError"
      by (auto simp: items_between_def)
    moreover have "v = [] \<or> 5 < length v \<or> surviving_labels v = []"
      using True by blast
    ultimately show ?thesis
      using assms
      by (simp only: suggested_labels_field_def list_str_field_def str_items_strings
          and_then_def validated_def option.case json.case sum.case if_True)
  next
    case False
    then have ib: "items_between 1 5 v = Inr v"
      by (cases v) (auto simp: items_between_def)
    have "take 5 (surviving_labels v) = surviving_labels v"
      using len False by simp
    then show ?thesis
      using False assms ib val
      by (simp add: suggested_labels_field_def list_str_field_def str_items_strings
          and_then_def validated_def)
  qed
  with len val show ?thesis by blast
qed

theorem labels_validation_witness:
  "suggested_labels_field (candidate_with_labels ['' Bug '', ''type: bug'', ''Good First Issue'']) =
     Inr [''bug'', ''good first issue''] \<and>
   suggested_labels_field (candidate_with_labels [''a'', ''b'', ''c'', ''d'', ''e'', ''f'']) =
     Inl ValidationError \<and>
   suggested_labels_field (candidate_with_labels [''type: bug'']) = Inl ValidationError"
proof -
  have m: "\<And>v. map_of (candidate_with_labels v) ''suggested_labels'' = Some (JArray (map JString v))"
    by (simp add: candidate_with_labels_def)
  have s1: "surviving_labels ['' Bug '', ''type: bug'', ''Good First Issue''] =
      [''bug'', ''good first issue'']" by code_simp
  have s3: "surviving_labels [''type: bug''] = []" by code_simp
  show ?thesis
    using labels_validation [OF m, of "['' Bug '', ''type: bug'', ''Good First Issue'']"]
      labels_validation [OF m, of "[''a'', ''b'', ''c'', ''d'', ''e'', ''f'']"]
      labels_validation [OF m, of "[''type: bug'']"] s1 s3
    by simp
qed

text \<open>
  C5: the validator is meant to cut the surviving labels to the first five, so that a
  candidate with more than five valid labels is accepted (\<open>validate_labels\<close> ends
  with \<open>cleaned_labels[:5]\<close>, commented as the limit of five). The code does not do
  so: the bound \<open>max_items=5\<close> of the field is checked first, and a candidate with
  six valid labels is rejected with \<open>ValidationError\<close>; the same candidate with five
  labels is accepted.
\<close>

theorem six_labels_rejected:
  "IssueAnalysis (candidate_with_labels [''a'', ''b'', ''c'', ''d'', ''e'', ''f'']) =
     Inl ValidationError \<and>
   IssueAnalysis (candidate_with_labels [''a'', ''b'', ''c'', ''d'', ''e'']) =
     Inr \<lparr>summary = ''x'', type = ''bug'', priority_score = ''1'',
          suggested_labels = [''a'', ''b'', ''c'', ''d'', ''e''], potential_impact = ''y''\<rparr>"
  by code_simp

subsection \<open>Fetching the comments\<close>

lemma format_comment_cases:
  "format_comment c =
     (if has_null c then Inl AttributeError
      else if comment_text c = [] then Inr None else Inr (Some (rendered c)))"
  unfolding format_comment_def has_null_def comment_text_def rendered_def comment_author_def Let_def
  by (cases "c_user c"; cases "c_body c") (simp_all split: option.splits)

lemma formatted_comments_ok:
  "\<not> list_ex has_null cs \<Longrightarrow>
   formatted_comments cs = Inr (map rendered (filter (\<lambda>c. comment_text c \<noteq> []) cs))"
  by (induction cs) (simp_all add: format_comment_cases and_then_def)

lemma formatted_comments_raises:
  "list_ex has_null cs \<Longrightarrow> \<exists>ex. formatted_comments cs = Inl ex"
proof (induction cs)
  case Nil
  then show ?case by simp
next
  case (Cons c cs)
  show ?case
  proof (cases "has_null c")
    case True
    then show ?thesis by (simp add: format_comment_cases and_then_def)
  next
    case False
    then obtain ex where "formatted_comments cs = Inl ex" using Cons by auto
    then show ?thesis using False by (simp add: format_comment_cases and_then_def)
  qed
qed

text \<open>
  C9: \<open>get_issue_comments\<close> always returns a string. It returns the empty string
  for the empty URL (without a call), when the call raises, when the status is not 200,
  when the body cannot be decoded, and when a comment has a null \<open>user\<close> or a null
  \<open>body\<close> (the exception is caught). Otherwise it drops the comments whose trimmed
  body is empty, renders each remaining one as \<open>Comment by\<close> author, colon, newline,
  trimmed body, and joins them with the separator (newline, \<open>---COMMENT---\<close>,
  newline); when no comment remains the result is the empty string.
\<close>

theorem comments_never_fail:
  "(comments_url = [] \<longrightarrow> get_issue_comments e comments_url = ([], [])) \<and>
   (comments_api e comments_url = Raises ex \<longrightarrow> fst (get_issue_comments e comments_url) = []) \<and>
   (comments_api e comments_url = Response status body \<and> status \<noteq> 200 \<longrightarrow>
      fst (get_issue_comments e comments_url) = []) \<and>
   (comments_api e comments_url = Response 200 None \<longrightarrow>
      fst (get_issue_comments e comments_url) = []) \<and>
   (comments_api e comments_url = Response 200 (Some cs) \<and> list_ex has_null cs \<longrightarrow>
      fst (get_issue_comments e comments_url) = []) \<and>
   (comments_url \<noteq> [] \<and> comments_api e comments_url = Response 200 (Some cs) \<and>
    \<not> list_ex has_null cs \<longrightarrow>
      fst (get_issue_comments e comments_url) =
        join separator (map rendered (filter (\<lambda>c. comment_text c \<noteq> []) cs)) \<and>
      (filter (\<lambda>c. comment_text c \<noteq> []) cs = [] \<longrightarrow>
         fst (get_issue_comments e comments_url) = []))"
proof -
  have a: "comments_url = [] \<longrightarrow> get_issue_comments e comments_url = ([], [])"
    by (simp add: get_issue_comments_def)
  have b: "comments_api e comments_url = Raises ex \<longrightarrow>
      fst (get_issue_comments e comments_url) = []"
    by (simp add: get_issue_comments_def)
  have c: "comments_api e comments_url = Response status body \<and> status \<noteq> 200 \<longrightarrow>
      fst (get_issue_comments e comments_url) = []"
    by (simp add: get_issue_comments_def)
  have d: "comments_api e comments_url = Response 200 None \<longrightarrow>
      fst (get_issue_comments e comments_url) = []"
    by (simp add: get_issue_comments_def)
  have f: "comments_api e comments_url = Response 200 (Some cs) \<and> list_ex has_null cs \<longrightarrow>
      fst (get_issue_comments e comments_url) = []"
  proof
    assume h: "comments_api e comments_url = Response 200 (Some cs) \<and> list_ex has_null cs"
    then obtain ex' where "formatted_comments cs = Inl ex'"
      using formatted_comments_raises by blast
    with h show "fst (get_issue_comments e comments_url) = []"
      by (simp add: get_issue_comments_def)
  qed
  have g: "comments_url \<noteq> [] \<and> comments_api e comments_url = Response 200 (Some cs) \<and>
      \<not> list_ex has_null cs \<longrightarrow>
      fst (get_issue_comments e comments_url) =
        join separator (map rendered (filter (\<lambda>c. comment_text c \<noteq> []) cs)) \<and>
      (filter (\<lambda>c. comment_text c \<noteq> []) cs = [] \<longrightarrow>
         fst (get_issue_comments e comments_url) = [])"
  proof
    assume h: "comments_url \<noteq> [] \<and> comments_api e comments_url = Response 200 (Some cs) \<and>
      \<not> list_ex has_null cs"
    then have fc: "formatted_comments cs =
        Inr (map rendered (filter (\<lambda>c. comment_text c \<noteq> []) cs))"
      using formatted_comments_ok by blast
    have "fst (get_issue_comments e comments_url) =
        join separator (map rendered (filter (\<lambda>c. comment_text c \<noteq> []) cs))"
      using h fc by (cases cs) (simp_all add: get_issue_comments_def)
    then show "fst (get_issue_comments e comments_url) =
        join separator (map rendered (filter (\<lambda>c. comment_text c \<noteq> []) cs)) \<and>
      (filter (\<lambda>c. comment_text c \<noteq> []) cs = [] \<longrightarrow>
         fst (get_issue_comments e comments_url) = [])"
      by simp
  qed
  from a b c d f g show ?thesis by blast
qed

theorem comments_never_fail_witness:
  "fst (get_issue_comments (comments_env (Response 200 (Some sample_comments))) ''u'') =
     ''Comment by alice:\<newline>I see this too\<newline>---COMMENT---\<newline>Comment by unknown:\<newline>Fixed in 2.0'' \<and>
   fst (get_issue_comments (comments_env (Raises Timeout)) ''u'') = [] \<and>
   fst (get_issue_comments (comments_env (Response 404 None)) ''u'') = [] \<and>
   fst (get_issue_comments (comments_env (Response 200 (Some [\<lparr>c_user = Null, c_body = Present ''x''\<rparr>]))) ''u'') = []"
proof -
  have h: "''u'' \<noteq> [] \<and>
      comments_api (comments_env (Response 200 (Some sample_comments))) ''u'' =
        Response 200 (Some sample_comments) \<and>
      \<not> list_ex has_null sample_comments"
    by (simp add: comments_env_def sample_comments_def has_null_def)
  have v: "join separator (map rendered (filter (\<lambda>c. comment_text c \<noteq> []) sample_comments)) =
      ''Comment by alice:\<newline>I see this too\<newline>---COMMENT---\<newline>Comment by unknown:\<newline>Fixed in 2.0''"
    by code_simp
  have r: "comments_api (comments_env (Raises Timeout)) ''u'' = Raises Timeout"
    by (simp add: comments_env_def)
  have s: "comments_api (comments_env (Response 404 None)) ''u'' = Response 404 None \<and>
      (404::nat) \<noteq> 200"
    by (simp add: comments_env_def)
  have n: "comments_api (comments_env (Response 200 (Some [\<lparr>c_user = Null, c_body = Present ''x''\<rparr>]))) ''u'' =
        Response 200 (Some [\<lparr>c_user = Null, c_body = Present ''x''\<rparr>]) \<and>
      list_ex has_null [\<lparr>c_user = Null, c_body = Present ''x''\<rparr>]"
    by (simp add: comments_env_def has_null_def)
  show ?thesis
    using comments_never_fail [where comments_url = "''u''" and cs = sample_comments
        and e = "comments_env (Response 200 (Some sample_comments))"]
      comments_never_fail [where comments_url = "''u''" and ex = Timeout
        and e = "comments_env (Raises Timeout)"]
      comments_never_fail [where comments_url = "''u''" and status = 404 and body = None
        and e = "comments_env (Response 404 None)"]
      comments_never_fail [where comments_url = "''u''"
        and cs = "[\<lparr>c_user = Null, c_body = Present ''x''\<rparr>]"
        and e = "comments_env (Response 200 (Some [\<lparr>c_user = Null, c_body = Present ''x''\<rparr>]))"]
      h v r s n
    by presburger
qed

subsection \<open>The reply of the model\<close>

lemma json_match_embedded:
  assumes "CHR ''{'' \<notin> set pre" and "CHR ''}'' \<notin> set post"
  shows "json_match (pre @ [CHR ''{''] @ mid @ [CHR ''}''] @ post) = Some ([CHR ''{''] @ mid @ [CHR ''}''])"
proof -
  have d: "dropWhile (\<lambda>c. \<not> is_open c) (pre @ [CHR ''{''] @ mid @ [CHR ''}''] @ post) =
      CHR ''{'' # mid @ [CHR ''}''] @ post"
    using assms(1) by (simp add: dropWhile_append is_open_def)
  have r: "rstrip (\<lambda>c. \<not> is_close c) (mid @ [CHR ''}''] @ post) = mid @ [CHR ''}'']"
    using assms(2) by (simp add: rstrip_def dropWhile_append is_close_def)
  have x: "list_ex is_close (mid @ [CHR ''}''] @ post)"
    by (simp add: list_ex_iff is_close_def)
  show ?thesis unfolding json_match_def d using r x by simp
qed

lemma json_match_Some:
  assumes "json_match t = Some span"
  shows "\<exists>pre mid post. t = pre @ span @ post \<and> span = [CHR ''{''] @ mid @ [CHR ''}''] \<and>
           CHR ''{'' \<notin> set pre \<and> CHR ''}'' \<notin> set post"
proof -
  let ?P = "\<lambda>c. \<not> is_open c"
  let ?Q = "\<lambda>c. \<not> is_close c"
  obtain b rest where dw: "dropWhile ?P t = b # rest"
    using assms by (auto simp: json_match_def split: list.splits)
  have ex: "list_ex is_close rest" and span: "span = b # rstrip ?Q rest"
    using assms dw by (auto simp: json_match_def split: if_splits)
  have b: "b = CHR ''{''"
    using dw by (metis (mono_tags, lifting) dropWhile_eq_Cons_conv is_open_def)
  have t: "t = takeWhile ?P t @ b # rest"
    using dw by (metis takeWhile_dropWhile_id)
  have pre: "CHR ''{'' \<notin> set (takeWhile ?P t)"
    by (auto dest: set_takeWhileD simp: is_open_def)
  let ?post = "rev (takeWhile ?Q (rev rest))"
  have rest: "rest = rstrip ?Q rest @ ?post"
    unfolding rstrip_def by (metis rev_append rev_rev_ident takeWhile_dropWhile_id)
  have post: "CHR ''}'' \<notin> set ?post"
    by (auto dest: set_takeWhileD simp: is_close_def)
  have ne: "dropWhile ?Q (rev rest) \<noteq> []"
    using ex by (auto simp: list_ex_iff)
  then obtain y ys where dq: "dropWhile ?Q (rev rest) = y # ys"
    by (cases "dropWhile ?Q (rev rest)") auto
  then have y: "y = CHR ''}''"
    by (metis (mono_tags, lifting) dropWhile_eq_Cons_conv is_close_def)
  have rs: "rstrip ?Q rest = rev ys @ [CHR ''}'']"
    unfolding rstrip_def dq y by simp
  have "t = takeWhile ?P t @ span @ ?post"
    using t rest span by simp
  moreover have "span = [CHR ''{''] @ rev ys @ [CHR ''}'']"
    using span b rs by simp
  ultimately show ?thesis using pre post by blast
qed

lemma json_match_None:
  "json_match t = None \<longleftrightarrow> \<not> (\<exists>pre mid post. t = pre @ [CHR ''{''] @ mid @ [CHR ''}''] @ post)"
proof
  assume n: "json_match t = None"
  show "\<not> (\<exists>pre mid post. t = pre @ [CHR ''{''] @ mid @ [CHR ''}''] @ post)"
  proof
    assume "\<exists>pre mid post. t = pre @ [CHR ''{''] @ mid @ [CHR ''}''] @ post"
    then obtain pre mid post where t: "t = pre @ [CHR ''{''] @ mid @ [CHR ''}''] @ post" by blast
    let ?P = "\<lambda>c. \<not> is_open c"
    have "CHR ''{'' \<in> set t" using t by simp
    then have "dropWhile ?P t \<noteq> []" by (auto simp: is_open_def)
    then obtain b rest where dw: "dropWhile ?P t = b # rest"
      by (cases "dropWhile ?P t") auto
    have "t = takeWhile ?P t @ b # rest" using dw by (metis takeWhile_dropWhile_id)
    moreover have "CHR ''{'' \<notin> set (takeWhile ?P t)"
      by (auto dest: set_takeWhileD simp: is_open_def)
    ultimately obtain tw where tt: "t = tw @ b # rest" and tw: "CHR ''{'' \<notin> set tw"
      by blast
    have "pre @ CHR ''{'' # (mid @ [CHR ''}''] @ post) = tw @ b # rest"
      using t tt by simp
    then have "CHR ''}'' \<in> set rest"
      using tw by (auto simp: append_eq_append_conv2 Cons_eq_append_conv append_eq_Cons_conv)
    then have "list_ex is_close rest" by (auto simp: list_ex_iff is_close_def)
    then show False using n dw by (simp add: json_match_def)
  qed
next
  assume a: "\<not> (\<exists>pre mid post. t = pre @ [CHR ''{''] @ mid @ [CHR ''}''] @ post)"
  show "json_match t = None"
  proof (cases "json_match t")
    case None
    then show ?thesis .
  next
    case (Some span)
    from json_match_Some [OF Some] obtain pre mid post
      where "t = pre @ span @ post" and "span = [CHR ''{''] @ mid @ [CHR ''}'']" by blast
    then have "t = pre @ [CHR ''{''] @ mid @ [CHR ''}''] @ post" by simp
    with a show ?thesis by blast
  qed
qed

lemma strip_Nil: "strip [] = []"
  by (simp add: strip_def rstrip_def)

lemma str_items_Inr: "str_items js = Inr v \<Longrightarrow> js = map JString v"
proof (induction js arbitrary: v rule: str_items.induct)
  case 1
  then show ?case by simp
next
  case (2 s js)
  then show ?case by (auto simp: and_then_def split: sum.splits)
qed simp_all


lemma summary_field_Inr:
  "summary_field kw = Inr x \<Longrightarrow> \<exists>s. map_of kw ''summary'' = Some (JString s) \<and> x = strip s"
  by (auto simp: summary_field_def validated_def and_then_def str_field_def max_length_def
      validate_summary_def split: sum.splits option.splits json.splits if_splits)

lemma potential_impact_field_Inr:
  "potential_impact_field kw = Inr x \<Longrightarrow>
     \<exists>s. map_of kw ''potential_impact'' = Some (JString s) \<and> x = strip s"
  by (auto simp: potential_impact_field_def validated_def and_then_def str_field_def
      max_length_def validate_potential_impact_def
      split: sum.splits option.splits json.splits if_splits)

lemma type_field_Inr: "type_field kw = Inr x \<Longrightarrow> map_of kw ''type'' = Some (JString x)"
  by (auto simp: type_field_def and_then_def str_field_def type_pattern_def
      split: sum.splits option.splits json.splits if_splits)

lemma priority_score_field_Inr:
  "priority_score_field kw = Inr x \<Longrightarrow> map_of kw ''priority_score'' = Some (JString x)"
  by (auto simp: priority_score_field_def and_then_def str_field_def max_length_def
      split: sum.splits option.splits json.splits if_splits)

lemma suggested_labels_field_Inr:
  assumes "suggested_labels_field kw = Inr l"
  shows "\<exists>v. map_of kw ''suggested_labels'' = Some (JArray (map JString v)) \<and>
             l = surviving_labels v"
proof -
  obtain js v where m: "map_of kw ''suggested_labels'' = Some (JArray js)"
    and si: "str_items js = Inr v" and len: "length v \<le> 5" and vl: "validate_labels v = Inr l"
    using assms
    by (auto simp: suggested_labels_field_def validated_def and_then_def list_str_field_def
        items_between_def split: sum.splits option.splits json.splits if_splits)
  have js: "js = map JString v" using si by (rule str_items_Inr)
  have "l = take 5 (surviving_labels v)"
    using vl by (auto simp: validate_labels_def clean_labels_surviving Let_def split: if_splits)
  moreover have "length (surviving_labels v) \<le> 5"
    using len length_surviving_labels [of v] by simp
  ultimately have "l = surviving_labels v" by simp
  with m js show ?thesis by blast
qed

lemma IssueAnalysis_Inr:
  assumes "IssueAnalysis kw = Inr a"
  shows "summary_field kw = Inr (summary a) \<and> type_field kw = Inr (type a) \<and>
         priority_score_field kw = Inr (priority_score a) \<and>
         suggested_labels_field kw = Inr (suggested_labels a) \<and>
         potential_impact_field kw = Inr (potential_impact a)"
  using assms by (auto simp: IssueAnalysis_def and_then_def split: sum.splits)

lemma analyze_with_llm_parsed:
  assumes "generate_content e (build_prompt title body state (existing_labels_of labels) comments) =
             LLMText text"
    and "text \<noteq> []"
    and "json_loads e (candidate text) = Some (JObject kw)"
    and "IssueAnalysis kw = Inr a"
  shows "fst (analyze_with_llm e title body comments labels state) = Inr a"
  using assms by (simp add: analyze_with_llm_def try_llm_def construct_def Let_def)

text \<open>
  C7: the normalizer on a reply of the model. When the trimmed reply has an opening
  brace with a closing brace somewhere after it, the parse candidate is the span from
  the first opening brace to the last closing brace, whatever stands between them
  (newlines included); when that span parses to an object and the object passes
  validation, \<open>analyze_with_llm\<close> returns the validated object: its \<open>type\<close> and
  \<open>priority_score\<close> are the object's own, its \<open>summary\<close> and \<open>potential_impact\<close>
  are the object's, trimmed, and its \<open>suggested_labels\<close> are the object's, cleaned.
  When the trimmed reply has no such pair of braces, the parse candidate is the whole
  trimmed reply.
\<close>

theorem normalizer_extracts_span:
  assumes "generate_content e (build_prompt title body state (existing_labels_of labels) comments) =
             LLMText text"
  shows "(strip text = pre @ [CHR ''{''] @ mid @ [CHR ''}''] @ post \<and>
          CHR ''{'' \<notin> set pre \<and> CHR ''}'' \<notin> set post \<longrightarrow>
            candidate text = [CHR ''{''] @ mid @ [CHR ''}''] \<and>
            (json_loads e ([CHR ''{''] @ mid @ [CHR ''}'']) = Some (JObject kw) \<and>
             IssueAnalysis kw = Inr a \<longrightarrow>
               fst (analyze_with_llm e title body comments labels state) = Inr a \<and>
               map_of kw ''type'' = Some (JString (type a)) \<and>
               map_of kw ''priority_score'' = Some (JString (priority_score a)) \<and>
               (\<exists>s. map_of kw ''summary'' = Some (JString s) \<and> summary a = strip s) \<and>
               (\<exists>s. map_of kw ''potential_impact'' = Some (JString s) \<and>
                    potential_impact a = strip s) \<and>
               (\<exists>v. map_of kw ''suggested_labels'' = Some (JArray (map JString v)) \<and>
                    suggested_labels a = surviving_labels v))) \<and>
         ((\<nexists>p m q. strip text = p @ [CHR ''{''] @ m @ [CHR ''}''] @ q) \<longrightarrow>
            candidate text = strip text)"
proof -
  have none: "(\<nexists>p m q. strip text = p @ [CHR ''{''] @ m @ [CHR ''}''] @ q) \<longrightarrow>
      candidate text = strip text"
  proof
    assume "\<nexists>p m q. strip text = p @ [CHR ''{''] @ m @ [CHR ''}''] @ q"
    then have "json_match (strip text) = None" using json_match_None by blast
    then show "candidate text = strip text" by (simp add: candidate_def Let_def)
  qed
  have some: "strip text = pre @ [CHR ''{''] @ mid @ [CHR ''}''] @ post \<and>
      CHR ''{'' \<notin> set pre \<and> CHR ''}'' \<notin> set post \<longrightarrow>
        candidate text = [CHR ''{''] @ mid @ [CHR ''}''] \<and>
        (json_loads e ([CHR ''{''] @ mid @ [CHR ''}'']) = Some (JObject kw) \<and>
         IssueAnalysis kw = Inr a \<longrightarrow>
           fst (analyze_with_llm e title body comments labels state) = Inr a \<and>
           map_of kw ''type'' = Some (JString (type a)) \<and>
           map_of kw ''priority_score'' = Some (JString (priority_score a)) \<and>
           (\<exists>s. map_of kw ''summary'' = Some (JString s) \<and> summary a = strip s) \<and>
           (\<exists>s. map_of kw ''potential_impact'' = Some (JString s) \<and>
                potential_impact a = strip s) \<and>
           (\<exists>v. map_of kw ''suggested_labels'' = Some (JArray (map JString v)) \<and>
                suggested_labels a = surviving_labels v))"
  proof (intro impI, elim conjE)
    assume st: "strip text = pre @ [CHR ''{''] @ mid @ [CHR ''}''] @ post"
      and p1: "CHR ''{'' \<notin> set pre" and p2: "CHR ''}'' \<notin> set post"
    have cand: "candidate text = [CHR ''{''] @ mid @ [CHR ''}'']"
      using json_match_embedded [OF p1 p2, of mid] st by (simp add: candidate_def Let_def)
    have ne: "text \<noteq> []" using st strip_Nil by auto
    have rest: "json_loads e ([CHR ''{''] @ mid @ [CHR ''}'']) = Some (JObject kw) \<and>
         IssueAnalysis kw = Inr a \<longrightarrow>
           fst (analyze_with_llm e title body comments labels state) = Inr a \<and>
           map_of kw ''type'' = Some (JString (type a)) \<and>
           map_of kw ''priority_score'' = Some (JString (priority_score a)) \<and>
           (\<exists>s. map_of kw ''summary'' = Some (JString s) \<and> summary a = strip s) \<and>
           (\<exists>s. map_of kw ''potential_impact'' = Some (JString s) \<and>
                potential_impact a = strip s) \<and>
           (\<exists>v. map_of kw ''suggested_labels'' = Some (JArray (map JString v)) \<and>
                suggested_labels a = surviving_labels v)"
    proof (intro impI, elim conjE)
      assume jl: "json_loads e ([CHR ''{''] @ mid @ [CHR ''}'']) = Some (JObject kw)"
        and ia: "IssueAnalysis kw = Inr a"
      have r: "fst (analyze_with_llm e title body comments labels state) = Inr a"
        using analyze_with_llm_parsed [OF assms ne _ ia] jl cand by simp
      note f = IssueAnalysis_Inr [OF ia]
      from f have f1: "\<exists>s. map_of kw ''summary'' = Some (JString s) \<and> summary a = strip s"
        using summary_field_Inr by blast
      from f have f2: "map_of kw ''type'' = Some (JString (type a))"
        using type_field_Inr by blast
      from f have f3: "map_of kw ''priority_score'' = Some (JString (priority_score a))"
        using priority_score_field_Inr by blast
      from f have f4: "\<exists>v. map_of kw ''suggested_labels'' = Some (JArray (map JString v)) \<and>
                suggested_labels a = surviving_labels v"
        using suggested_labels_field_Inr by blast
      from f have f5: "\<exists>s. map_of kw ''potential_impact'' = Some (JString s) \<and>
                potential_impact a = strip s"
        using potential_impact_field_Inr by blast
      from r f1 f2 f3 f4 f5
      show "fst (analyze_with_llm e title body comments labels state) = Inr a \<and>
           map_of kw ''type'' = Some (JString (type a)) \<and>
           map_of kw ''priority_score'' = Some (JString (priority_score a)) \<and>
           (\<exists>s. map_of kw ''summary'' = Some (JString s) \<and> summary a = strip s) \<and>
           (\<exists>s. map_of kw ''potential_impact'' = Some (JString s) \<and>
                potential_impact a = strip s) \<and>
           (\<exists>v. map_of kw ''suggested_labels'' = Some (JArray (map JString v)) \<and>
                suggested_labels a = surviving_labels v)"
        by blast
    qed
    from cand rest show "candidate text = [CHR ''{''] @ mid @ [CHR ''}''] \<and>
        (json_loads e ([CHR ''{''] @ mid @ [CHR ''}'']) = Some (JObject kw) \<and>
         IssueAnalysis kw = Inr a \<longrightarrow>
           fst (analyze_with_llm e title body comments labels state) = Inr a \<and>
           map_of kw ''type'' = Some (JString (type a)) \<and>
           map_of kw ''priority_score'' = Some (JString (priority_score a)) \<and>
           (\<exists>s. map_of kw ''summary'' = Some (JString s) \<and> summary a = strip s) \<and>
           (\<exists>s. map_of kw ''potential_impact'' = Some (JString s) \<and>
                potential_impact a = strip s) \<and>
           (\<exists>v. map_of kw ''suggested_labels'' = Some (JArray (map JString v)) \<and>
                suggested_labels a = surviving_labels v))"
      by blast
  qed
  from some none show ?thesis by blast
qed

theorem normalizer_extracts_span_witness:
  "fst (analyze_with_llm (example_env (''Here is the result: '' @ example_span))
          ''Login'' [] [] [] ''open'') =
     Inr \<lparr>summary = ''x'', type = ''bug'', priority_score = ''1'',
          suggested_labels = [''bug''], potential_impact = ''y''\<rparr> \<and>
   candidate (''Here is the result: '' @ example_span) = example_span \<and>
   candidate ''  I cannot help with that. '' = ''I cannot help with that.''"
proof -
  let ?text = "''Here is the result: '' @ example_span"
  let ?mid = "butlast (tl example_span)"
  let ?a = "\<lparr>summary = ''x'', type = ''bug'', priority_score = ''1'',
          suggested_labels = [''bug''], potential_impact = ''y''\<rparr>"
  have g: "generate_content (example_env ?text)
      (build_prompt ''Login'' [] ''open'' (existing_labels_of []) []) = LLMText ?text"
    by (simp add: example_env_def)
  have sp: "[CHR ''{''] @ ?mid @ [CHR ''}''] = example_span" by code_simp
  have h1: "strip ?text = ''Here is the result: '' @ [CHR ''{''] @ ?mid @ [CHR ''}''] @ [] \<and>
      CHR ''{'' \<notin> set ''Here is the result: '' \<and> CHR ''}'' \<notin> set []"
    by code_simp
  have h2: "json_loads (example_env ?text) ([CHR ''{''] @ ?mid @ [CHR ''}'']) =
      Some (JObject example_object) \<and> IssueAnalysis example_object = Inr ?a"
    by code_simp
  let ?no = "''  I cannot help with that. ''"
  have g2: "generate_content (example_env ?no)
      (build_prompt ''Login'' [] ''open'' (existing_labels_of []) []) = LLMText ?no"
    by (simp add: example_env_def)
  have st: "strip ?no = ''I cannot help with that.''" by code_simp
  have "CHR ''{'' \<notin> set (strip ?no)" unfolding st by simp
  then have h3: "\<nexists>p m q. strip ?no = p @ [CHR ''{''] @ m @ [CHR ''}''] @ q"
    by (metis append_Cons in_set_conv_decomp)
  from normalizer_extracts_span [OF g, of "''Here is the result: ''" ?mid "[]" example_object ?a]
    h1 h2
  have r1: "candidate ?text = [CHR ''{''] @ ?mid @ [CHR ''}''] \<and>
      fst (analyze_with_llm (example_env ?text) ''Login'' [] [] [] ''open'') = Inr ?a"
    by blast
  from normalizer_extracts_span [OF g2] h3
  have r2: "candidate ?no = strip ?no" by blast
  from r1 r2 sp st show ?thesis by simp
qed

subsection \<open>Equivalent repository URLs\<close>

lemma rstrip_keep:
  assumes "x \<noteq> []" and "\<not> P (last x)"
  shows "rstrip P x = x"
proof -
  have "rev x \<noteq> []" and "\<not> P (hd (rev x))"
    using assms by (simp_all add: hd_rev)
  then have "dropWhile P (rev x) = rev x"
    by (simp add: dropWhile_eq_self_iff)
  then show ?thesis by (simp add: rstrip_def)
qed

lemma rstrip_pad:
  assumes "list_all P ws"
  shows "rstrip P (x @ ws) = rstrip P x"
proof -
  have "\<And>c. c \<in> set (rev ws) \<Longrightarrow> P c" using assms by (simp add: list_all_iff)
  then have "dropWhile P (rev ws @ rev x) = dropWhile P (rev x)"
    by (rule dropWhile_append2)
  then show ?thesis by (simp add: rstrip_def)
qed

lemma strip_pad:
  assumes "list_all py_isspace ws1" and "list_all py_isspace ws2"
    and "x \<noteq> []" and "\<not> py_isspace (hd x)" and "\<not> py_isspace (last x)"
  shows "strip (ws1 @ x @ ws2) = x"
proof -
  have "rstrip py_isspace (ws1 @ x @ ws2) = rstrip py_isspace (ws1 @ x)"
    using rstrip_pad [OF assms(2), of "ws1 @ x"] by simp
  also have "\<dots> = ws1 @ x"
    using assms(3,5) by (intro rstrip_keep) simp_all
  finally have r: "rstrip py_isspace (ws1 @ x @ ws2) = ws1 @ x" .
  have "\<And>c. c \<in> set ws1 \<Longrightarrow> py_isspace c" using assms(1) by (simp add: list_all_iff)
  then have "dropWhile py_isspace (ws1 @ x) = dropWhile py_isspace x" by simp
  also have "\<dots> = x" using assms(3,4) by (simp add: dropWhile_eq_self_iff)
  finally show ?thesis by (simp add: strip_def r)
qed

lemma match_tail_pair:
  assumes "owner \<noteq> []" and "list_all not_slash owner"
    and "repo \<noteq> []" and "list_all not_slash repo"
  shows "match_tail (owner @ ''/'' @ repo) = Some (owner, repo)"
proof -
  have o: "\<And>c. c \<in> set owner \<Longrightarrow> not_slash c" and r: "\<And>c. c \<in> set repo \<Longrightarrow> not_slash c"
    using assms by (simp_all add: list_all_iff)
  have t1: "takeWhile not_slash (owner @ ''/'' @ repo) = owner"
    using o by (simp add: not_slash_def)
  have d1: "dropWhile not_slash (owner @ ''/'' @ repo) = CHR ''/'' # repo"
    using o by (simp add: not_slash_def)
  have t2: "takeWhile not_slash repo = repo" using r by simp
  have d2: "dropWhile not_slash repo = []" using r by simp
  show ?thesis
    unfolding match_tail_def Let_def t1 d1 list.case t2 d2 using assms(1,3) by simp
qed

lemma startswith_append: "startswith (p @ x) p"
  by (simp add: startswith_def)

lemma startswith_split: "startswith s p \<Longrightarrow> s = p @ drop (length p) s"
  unfolding startswith_def by (metis append_take_drop_id)

lemma re_match_here:
  assumes "owner \<noteq> []" and "list_all not_slash owner"
    and "repo \<noteq> []" and "list_all not_slash repo"
  shows "re_match p (p @ owner @ ''/'' @ repo) = Some (owner, repo)"
  using match_tail_pair [OF assms] by (simp add: re_match_def startswith_append)

lemma re_match_too_few_slashes:
  assumes "length (filter (\<lambda>c. c = CHR ''/'') s) \<le> length (filter (\<lambda>c. c = CHR ''/'') p)"
  shows "re_match p s = None"
proof (cases "startswith s p")
  case False
  then show ?thesis by (simp add: re_match_def)
next
  case True
  let ?rest = "drop (length p) s"
  have "s = p @ ?rest" using True by (rule startswith_split)
  then have "filter (\<lambda>c. c = CHR ''/'') s =
      filter (\<lambda>c. c = CHR ''/'') p @ filter (\<lambda>c. c = CHR ''/'') ?rest"
    by (metis filter_append)
  then have "filter (\<lambda>c. c = CHR ''/'') ?rest = []" using assms by simp
  then have "CHR ''/'' \<notin> set ?rest" by (auto simp: filter_empty_conv)
  then have "match_tail ?rest = None" by (rule match_tail_no_slash)
  then show ?thesis by (simp add: re_match_def)
qed

lemma one_slash:
  assumes "list_all not_slash owner" and "list_all not_slash repo"
  shows "length (filter (\<lambda>c. c = CHR ''/'') (owner @ ''/'' @ repo)) = 1"
proof -
  have "filter (\<lambda>c. c = CHR ''/'') owner = []" "filter (\<lambda>c. c = CHR ''/'') repo = []"
    using assms by (auto simp: filter_empty_conv list_all_iff not_slash_def)
  then show ?thesis by simp
qed

lemma first_match_form:
  assumes "owner \<noteq> []" and "list_all not_slash owner"
    and "repo \<noteq> []" and "list_all not_slash repo"
    and "scheme \<in> set patterns"
  shows "first_match patterns (scheme @ owner @ ''/'' @ repo) =
           Some (owner, if endswith repo ''.git'' then take (length repo - 4) repo else repo)"
proof -
  note here = re_match_here [OF assms(1-4)]
  consider "scheme = ''https://github.com/''" | "scheme = ''http://github.com/''"
    | "scheme = ''github.com/''" | "scheme = []"
    using assms(5) by (auto simp: patterns_def)
  then show ?thesis
  proof cases
    case 1
    then show ?thesis using here [of scheme] by (simp add: patterns_def)
  next
    case 2
    have "re_match ''https://github.com/'' (scheme @ owner @ ''/'' @ repo) = None"
      unfolding 2 by (simp add: re_match_def startswith_def)
    then show ?thesis using here [of scheme] 2 by (simp add: patterns_def)
  next
    case 3
    have "re_match ''https://github.com/'' (scheme @ owner @ ''/'' @ repo) = None"
      "re_match ''http://github.com/'' (scheme @ owner @ ''/'' @ repo) = None"
      unfolding 3 by (simp_all add: re_match_def startswith_def)
    then show ?thesis using here [of scheme] 3 by (simp add: patterns_def)
  next
    case 4
    have one: "length (filter (\<lambda>c. c = CHR ''/'') (owner @ ''/'' @ repo)) = 1"
      using assms(2,4) by (rule one_slash)
    have "re_match ''https://github.com/'' (owner @ ''/'' @ repo) = None"
      "re_match ''http://github.com/'' (owner @ ''/'' @ repo) = None"
      "re_match ''github.com/'' (owner @ ''/'' @ repo) = None"
      by (rule re_match_too_few_slashes, simp only: one, simp)+
    then show ?thesis using here [of "[]"] 4 by (simp add: patterns_def)
  qed
qed


lemma git_suffix:
  assumes "\<not> endswith repo ''.git''"
  shows "(let r = repo @ (if git then ''.git'' else [])
          in if endswith r ''.git'' then take (length r - 4) r else r) = repo"
proof (cases git)
  case True
  have "endswith (repo @ ''.git'') ''.git''" by (simp add: endswith_def)
  then show ?thesis using True by (simp add: Let_def)
next
  case False
  then show ?thesis using assms by (simp add: Let_def)
qed

text \<open>
  C6: equivalent URL forms parse to the same pair. Take an owner and a repository name,
  both non-empty and free of slashes, the owner not starting and the repository not
  ending with whitespace, the repository not itself ending in \<open>.git\<close>. Every form
  built from them (any of the four prefixes \<open>https://github.com/\<close>,
  \<open>http://github.com/\<close>, \<open>github.com/\<close> or none; with or without the \<open>.git\<close>
  suffix; with or without a trailing slash; with any whitespace around it) parses to
  exactly that owner and that repository, so any two such forms give identical pairs.
\<close>

theorem equivalent_forms:
  assumes "owner \<noteq> []" and "CHR ''/'' \<notin> set owner" and "\<not> py_isspace (hd owner)"
    and "repo \<noteq> []" and "CHR ''/'' \<notin> set repo" and "\<not> py_isspace (last repo)"
    and "\<not> endswith repo ''.git''"
    and "scheme \<in> set patterns"
    and "list_all py_isspace ws1" and "list_all py_isspace ws2"
  shows "parse_github_url (ws1 @ url_form scheme owner repo git slash @ ws2) = Inr (owner, repo)"
proof -
  let ?r = "repo @ (if git then ''.git'' else [])"
  let ?body = "scheme @ owner @ ''/'' @ ?r"
  let ?x = "?body @ (if slash then ''/'' else [])"
  have o: "owner \<noteq> []" "list_all not_slash owner" "\<not> py_isspace (hd owner)"
    using assms(1-3) by (auto simp: list_all_iff not_slash_def)
  have rp: "repo \<noteq> []" "list_all not_slash repo" "\<not> py_isspace (last repo)"
    using assms(4-6) by (auto simp: list_all_iff not_slash_def)
  have r: "?r \<noteq> []" "list_all not_slash ?r"
    using rp by (simp_all add: not_slash_def)
  have last_r: "\<not> py_isspace (last ?r)" "last ?r \<noteq> CHR ''/''"
    using rp by (auto simp: py_isspace_def list_all_iff not_slash_def)
  have form: "url_form scheme owner repo git slash = ?x"
    by (simp add: url_form_def)
  have x_ne: "?x \<noteq> []" using o by simp
  have hd_x: "\<not> py_isspace (hd ?x)"
    using assms(8) o by (auto simp: patterns_def py_isspace_def)
  have last_body: "last ?body = last ?r" using rp(1) by simp
  have last_x: "\<not> py_isspace (last ?x)"
  proof (cases slash)
    case True
    then show ?thesis by (simp add: py_isspace_def)
  next
    case False
    then show ?thesis using last_r(1) last_body by simp
  qed
  have st: "strip (ws1 @ ?x @ ws2) = ?x"
    using assms(9,10) x_ne hd_x last_x by (rule strip_pad)
  have keep: "rstrip (\<lambda>c. c = CHR ''/'') ?body = ?body"
  proof (rule rstrip_keep)
    show "?body \<noteq> []" using o(1) by simp
    show "\<not> last ?body = CHR ''/''" using last_r(2) unfolding last_body .
  qed
  have rs: "rstrip (\<lambda>c. c = CHR ''/'') ?x = ?body"
  proof (cases slash)
    case True
    have "rstrip (\<lambda>c. c = CHR ''/'') (?body @ ''/'') = rstrip (\<lambda>c. c = CHR ''/'') ?body"
      by (rule rstrip_pad) simp
    then show ?thesis using True keep by simp
  next
    case False
    then show ?thesis using keep by simp
  qed
  have fm: "first_match patterns ?body =
      Some (owner, if endswith ?r ''.git'' then take (length ?r - 4) ?r else ?r)"
    using o(1,2) r assms(8) by (rule first_match_form)
  have "(if endswith ?r ''.git'' then take (length ?r - 4) ?r else ?r) = repo"
    using git_suffix [OF assms(7), of git] by (simp add: Let_def)
  then have fm': "first_match patterns ?body = Some (owner, repo)"
    using fm by simp
  have ne: "ws1 @ url_form scheme owner repo git slash @ ws2 \<noteq> []"
    using x_ne form by simp
  show ?thesis
    unfolding parse_github_url_def form using ne st rs fm' by (simp add: form)
qed

theorem equivalent_forms_witness:
  "parse_github_url ''https://github.com/facebook/react'' = Inr (''facebook'', ''react'') \<and>
   parse_github_url ''github.com/facebook/react/'' = Inr (''facebook'', ''react'') \<and>
   parse_github_url ''facebook/react'' = Inr (''facebook'', ''react'') \<and>
   parse_github_url '' http://github.com/facebook/react.git/ '' = Inr (''facebook'', ''react'')"
proof -
  have n: "''facebook'' \<noteq> []" "CHR ''/'' \<notin> set ''facebook''"
    "\<not> py_isspace (hd ''facebook'')"
    "''react'' \<noteq> []" "CHR ''/'' \<notin> set ''react''" "\<not> py_isspace (last ''react'')"
    "\<not> endswith ''react'' ''.git''"
    by (simp_all add: py_isspace_def endswith_def)
  have p: "''https://github.com/'' \<in> set patterns" "''http://github.com/'' \<in> set patterns"
    "''github.com/'' \<in> set patterns" "[] \<in> set patterns"
    by (simp_all add: patterns_def)
  have w: "list_all py_isspace []" "list_all py_isspace '' ''"
    by (simp_all add: py_isspace_def)
  show ?thesis
    using equivalent_forms [OF n p(1) w(1) w(1), of False False]
      equivalent_forms [OF n p(3) w(1) w(1), of False True]
      equivalent_forms [OF n p(4) w(1) w(1), of False False]
      equivalent_forms [OF n p(2) w(2) w(2), of True True]
    by (simp add: url_form_def)
qed

subsection \<open>Malformed repository URLs, exactly\<close>

lemma match_tail_Some:
  assumes "match_tail t = Some (owner, repo)"
  shows "owner \<noteq> [] \<and> CHR ''/'' \<notin> set owner \<and> repo \<noteq> [] \<and> CHR ''/'' \<notin> set repo \<and>
         (\<exists>tail. (tail = [] \<or> tail = ''/'' \<or> tail = [CHR ''/'', CHR 0x0A]) \<and>
                 t = owner @ ''/'' @ repo @ tail)"
proof -
  obtain c r2 where dw: "dropWhile not_slash t = c # r2"
    using assms by (auto simp: match_tail_def Let_def split: if_splits list.splits)
  have ow: "owner = takeWhile not_slash t" and one: "owner \<noteq> []"
    and rp: "repo = takeWhile not_slash r2" and rne: "repo \<noteq> []"
    and tl: "dropWhile not_slash r2 = [] \<or> dropWhile not_slash r2 = ''/'' \<or>
             dropWhile not_slash r2 = [CHR ''/'', CHR 0x0A]"
    using assms dw by (auto simp: match_tail_def Let_def split: if_splits)
  have c: "c = CHR ''/''"
    using dw by (metis dropWhile_eq_Cons_conv not_slash_def)
  have t: "t = owner @ c # r2"
    using dw ow by (metis takeWhile_dropWhile_id)
  have r2: "r2 = repo @ dropWhile not_slash r2"
    using rp by simp
  have s1: "CHR ''/'' \<notin> set owner" unfolding ow by (auto dest: set_takeWhileD simp: not_slash_def)
  have s2: "CHR ''/'' \<notin> set repo" unfolding rp by (auto dest: set_takeWhileD simp: not_slash_def)
  have "t = owner @ ''/'' @ repo @ dropWhile not_slash r2"
    using t c r2 by simp
  with tl one rne s1 s2 show ?thesis by blast
qed

lemma match_tail_form:
  assumes "owner \<noteq> []" and "CHR ''/'' \<notin> set owner"
    and "repo \<noteq> []" and "CHR ''/'' \<notin> set repo"
    and "tail = [] \<or> tail = ''/'' \<or> tail = [CHR ''/'', CHR 0x0A]"
  shows "match_tail (owner @ ''/'' @ repo @ tail) = Some (owner, repo)"
proof -
  have o: "\<And>c. c \<in> set owner \<Longrightarrow> not_slash c" and r: "\<And>c. c \<in> set repo \<Longrightarrow> not_slash c"
    using assms(2,4) by (auto simp: not_slash_def)
  have t1: "takeWhile not_slash (owner @ ''/'' @ repo @ tail) = owner"
    using o by (simp add: not_slash_def)
  have d1: "dropWhile not_slash (owner @ ''/'' @ repo @ tail) = CHR ''/'' # repo @ tail"
    using o by (simp add: not_slash_def)
  have t0: "takeWhile not_slash tail = []" and d0: "dropWhile not_slash tail = tail"
    using assms(5) by (auto simp: not_slash_def)
  have t2: "takeWhile not_slash (repo @ tail) = repo" using r t0 by simp
  have d2: "dropWhile not_slash (repo @ tail) = tail" using r d0 by simp
  show ?thesis
    unfolding match_tail_def Let_def t1 d1 list.case t2 d2 using assms(1,3,5) by auto
qed

lemma first_match_None_iff:
  "first_match ps s = None \<longleftrightarrow> (\<forall>p\<in>set ps. re_match p s = None)"
  by (induction ps) (auto split: option.splits)

lemma re_match_Some_iff:
  "re_match p s = Some (owner, repo) \<longleftrightarrow>
     (\<exists>rest. s = p @ rest \<and> match_tail rest = Some (owner, repo))"
proof
  assume a: "re_match p s = Some (owner, repo)"
  then have sw: "startswith s p" and mt: "match_tail (drop (length p) s) = Some (owner, repo)"
    by (auto simp: re_match_def split: if_splits)
  have "s = p @ drop (length p) s" using sw by (rule startswith_split)
  with mt show "\<exists>rest. s = p @ rest \<and> match_tail rest = Some (owner, repo)" by blast
next
  assume "\<exists>rest. s = p @ rest \<and> match_tail rest = Some (owner, repo)"
  then show "re_match p s = Some (owner, repo)"
    by (auto simp: re_match_def startswith_append)
qed

text \<open>
  C4, amended: the parser fails with \<open>ValueError\<close> exactly on the malformed URLs.
  A URL is well-formed when it is non-empty and, once whitespace and trailing slashes
  are trimmed, consists of one of the four prefixes (\<open>https://github.com/\<close>,
  \<open>http://github.com/\<close>, \<open>github.com/\<close> or none), a non-empty owner without
  slash, a slash, a non-empty repository without slash, and nothing more (but for a
  slash, or a slash and a final newline, which the pattern's \<open>/?$\<close> lets pass).
  Every other URL is rejected, among them \<open>not a url\<close>, the empty string, a prefix
  alone, a prefix with an owner only, names with an empty component and paths with more
  than two components. (\<open>github.com/onlyowner\<close> is well-formed: no prefix, owner
  \<open>github.com\<close>, repository \<open>onlyowner\<close>.)
\<close>

theorem parse_fails_iff_malformed:
  "(parse_github_url url = Inl ValueError \<longleftrightarrow>
      url = [] \<or>
      \<not> (\<exists>prefix owner repo tail.
            prefix \<in> set patterns \<and>
            owner \<noteq> [] \<and> CHR ''/'' \<notin> set owner \<and> repo \<noteq> [] \<and> CHR ''/'' \<notin> set repo \<and>
            (tail = [] \<or> tail = ''/'' \<or> tail = [CHR ''/'', CHR 0x0A]) \<and>
            rstrip (\<lambda>c. c = CHR ''/'') (strip url) = prefix @ owner @ ''/'' @ repo @ tail)) \<and>
   parse_github_url ''not a url'' = Inl ValueError \<and>
   parse_github_url [] = Inl ValueError \<and>
   parse_github_url ''github.com/'' = Inl ValueError \<and>
   parse_github_url ''a/b/c'' = Inl ValueError \<and>
   parse_github_url ''a//b'' = Inl ValueError \<and>
   parse_github_url ''/a/b'' = Inl ValueError \<and>
   parse_github_url ''http://github.com/a'' = Inl ValueError \<and>
   parse_github_url ''https://github.com/a/b/issues/3'' = Inl ValueError"
proof -
  let ?s = "rstrip (\<lambda>c. c = CHR ''/'') (strip url)"
  let ?shape = "\<exists>prefix owner repo tail.
            prefix \<in> set patterns \<and>
            owner \<noteq> [] \<and> CHR ''/'' \<notin> set owner \<and> repo \<noteq> [] \<and> CHR ''/'' \<notin> set repo \<and>
            (tail = [] \<or> tail = ''/'' \<or> tail = [CHR ''/'', CHR 0x0A]) \<and>
            ?s = prefix @ owner @ ''/'' @ repo @ tail"
  have fails: "parse_github_url url = Inl ValueError \<longleftrightarrow>
      url = [] \<or> first_match patterns ?s = None"
    by (simp add: parse_github_url_def split: option.splits)
  have shape: "first_match patterns ?s \<noteq> None \<longleftrightarrow> ?shape"
  proof
    assume "first_match patterns ?s \<noteq> None"
    then have "\<not> (\<forall>p\<in>set patterns. re_match p ?s = None)"
      unfolding first_match_None_iff .
    then obtain p where p: "p \<in> set patterns" and "re_match p ?s \<noteq> None"
      by blast
    then obtain owner repo where "re_match p ?s = Some (owner, repo)" by auto
    then obtain rest where s: "?s = p @ rest" and mt: "match_tail rest = Some (owner, repo)"
      using re_match_Some_iff by blast
    from match_tail_Some [OF mt] obtain tail where
      "owner \<noteq> []" "CHR ''/'' \<notin> set owner" "repo \<noteq> []" "CHR ''/'' \<notin> set repo"
      "tail = [] \<or> tail = ''/'' \<or> tail = [CHR ''/'', CHR 0x0A]"
      "rest = owner @ ''/'' @ repo @ tail"
      by blast
    with p s show ?shape by blast
  next
    assume ?shape
    then obtain prefix owner repo tail where p: "prefix \<in> set patterns"
      and n: "owner \<noteq> []" "CHR ''/'' \<notin> set owner" "repo \<noteq> []" "CHR ''/'' \<notin> set repo"
        "tail = [] \<or> tail = ''/'' \<or> tail = [CHR ''/'', CHR 0x0A]"
      and s: "?s = prefix @ owner @ ''/'' @ repo @ tail"
      by blast
    have "match_tail (owner @ ''/'' @ repo @ tail) = Some (owner, repo)"
      using n by (rule match_tail_form)
    then have "re_match prefix ?s = Some (owner, repo)"
      using s re_match_Some_iff by blast
    then have "\<not> (\<forall>p\<in>set patterns. re_match p ?s = None)"
      using p by (metis option.distinct(1))
    then show "first_match patterns ?s \<noteq> None"
      unfolding first_match_None_iff .
  qed
  have general: "parse_github_url url = Inl ValueError \<longleftrightarrow> url = [] \<or> \<not> ?shape"
    using fails shape by blast
  have e1: "parse_github_url ''not a url'' = Inl ValueError" by code_simp
  have e2: "parse_github_url [] = Inl ValueError" by code_simp
  have e3: "parse_github_url ''github.com/'' = Inl ValueError" by code_simp
  have e4: "parse_github_url ''a/b/c'' = Inl ValueError" by code_simp
  have e5: "parse_github_url ''a//b'' = Inl ValueError" by code_simp
  have e6: "parse_github_url ''/a/b'' = Inl ValueError" by code_simp
  have e7: "parse_github_url ''http://github.com/a'' = Inl ValueError" by code_simp
  have e8: "parse_github_url ''https://github.com/a/b/issues/3'' = Inl ValueError" by code_simp
  from general e1 e2 e3 e4 e5 e6 e7 e8 show ?thesis by blast
qed


theorem parse_fails_iff_malformed_witness:
  "parse_github_url ''  onlyowner/ '' = Inl ValueError \<and>
   parse_github_url ''github.com/facebook/react/'' \<noteq> Inl ValueError"
proof -
  let ?S1 = "\<exists>prefix owner repo tail.
            prefix \<in> set patterns \<and>
            owner \<noteq> [] \<and> CHR ''/'' \<notin> set owner \<and> repo \<noteq> [] \<and> CHR ''/'' \<notin> set repo \<and>
            (tail = [] \<or> tail = ''/'' \<or> tail = [CHR ''/'', CHR 0x0A]) \<and>
            rstrip (\<lambda>c. c = CHR ''/'') (strip ''  onlyowner/ '') =
              prefix @ owner @ ''/'' @ repo @ tail"
  let ?S2 = "\<exists>prefix owner repo tail.
            prefix \<in> set patterns \<and>
            owner \<noteq> [] \<and> CHR ''/'' \<notin> set owner \<and> repo \<noteq> [] \<and> CHR ''/'' \<notin> set repo \<and>
            (tail = [] \<or> tail = ''/'' \<or> tail = [CHR ''/'', CHR 0x0A]) \<and>
            rstrip (\<lambda>c. c = CHR ''/'') (strip ''github.com/facebook/react/'') =
              prefix @ owner @ ''/'' @ repo @ tail"
  have s1: "rstrip (\<lambda>c. c = CHR ''/'') (strip ''  onlyowner/ '') = ''onlyowner''" by code_simp
  have s2: "rstrip (\<lambda>c. c = CHR ''/'') (strip ''github.com/facebook/react/'') =
      ''github.com/facebook/react''" by code_simp
  have no: "\<not> ?S1"
  proof
    assume ?S1
    then obtain prefix owner repo tail
      where eq: "''onlyowner'' = prefix @ owner @ ''/'' @ repo @ tail"
      unfolding s1 by blast
    have "CHR ''/'' \<in> set (prefix @ owner @ ''/'' @ repo @ tail)" by simp
    then have "CHR ''/'' \<in> set ''onlyowner''" unfolding eq [symmetric] .
    then show False by simp
  qed
  have p: "''github.com/'' \<in> set patterns" by (simp add: patterns_def)
  have yes: ?S2
    unfolding s2
  proof (intro exI conjI)
    show "''github.com/'' \<in> set patterns" by (rule p)
    show "''facebook'' \<noteq> []" by simp
    show "CHR ''/'' \<notin> set ''facebook''" by simp
    show "''react'' \<noteq> []" by simp
    show "CHR ''/'' \<notin> set ''react''" by simp
    show "[] = [] \<or> [] = ''/'' \<or> [] = [CHR ''/'', CHR 0x0A]" by simp
    show "''github.com/facebook/react'' = ''github.com/'' @ ''facebook'' @ ''/'' @ ''react'' @ []"
      by simp
  qed
  note g1 = parse_fails_iff_malformed [of "''  onlyowner/ ''", THEN conjunct1]
  note g2 = parse_fails_iff_malformed [of "''github.com/facebook/react/''", THEN conjunct1]
  have r1: "parse_github_url ''  onlyowner/ '' = Inl ValueError"
    by (rule iffD2 [OF g1], rule disjI2, rule no)
  have r2: "parse_github_url ''github.com/facebook/react/'' \<noteq> Inl ValueError"
  proof
    assume "parse_github_url ''github.com/facebook/react/'' = Inl ValueError"
    from iffD1 [OF g2 this] show False
    proof
      assume "''github.com/facebook/react/'' = []"
      then show False by simp
    next
      assume ns: "\<not> ?S2"
      from ns yes show False by (rule notE)
    qed
  qed
  from r1 r2 show ?thesis by (rule conjI)
qed

end
